theory Spec2Isabelle
  imports Complex_Main "HOL-Library.AList"
begin

section \<open>Python values used by \<open>_molecular_data_Dirac.py\<close>\<close>

text \<open>
  The exceptions the two readers can raise: \<open>FileNotFoundError\<close> is raised
  explicitly, \<open>IndexError\<close> by a subscript on a row with too few tokens (or by
  \<open>[-1]\<close> on an empty list) and \<open>ValueError\<close> by \<open>int()\<close> and \<open>float()\<close>.
\<close>

datatype error = FileNotFoundError | IndexError | ValueError

definition bind :: "error + 'a \<Rightarrow> ('a \<Rightarrow> error + 'b) \<Rightarrow> error + 'b" where
  "bind m f = (case m of Inl e \<Rightarrow> Inl e | Inr x \<Rightarrow> f x)"

text \<open>
  A Python \<open>dict\<close> is an association list in insertion order: \<open>d[k] = v\<close> is
  \<open>AList.update k v d\<close> (an existing key keeps its place and takes the new value, a
  new key is appended), \<open>k in d\<close> and \<open>d[k]\<close> read \<open>map_of d k\<close>, and \<open>len(d)\<close> is
  \<open>length d\<close>.
\<close>

type_synonym ('k, 'v) dict = "('k \<times> 'v) list"

text \<open>
  A file on disk is the list of its lines; the file system maps a path to the file
  there, \<open>None\<close> when \<open>os.path.exists\<close> is false.
\<close>

type_synonym files = "string \<Rightarrow> string list option"

text \<open>Whitespace as \<open>str.split()\<close> sees it on ASCII text.\<close>

definition is_space :: "char \<Rightarrow> bool" where
  "is_space c \<longleftrightarrow> c \<in> {CHR 0x09, CHR 0x0A, CHR 0x0B, CHR 0x0C, CHR 0x0D,
                         CHR 0x1C, CHR 0x1D, CHR 0x1E, CHR 0x1F, CHR 0x20}"

text \<open>\<open>line.split()\<close>: the maximal runs of non-whitespace characters.\<close>

fun split_acc :: "string \<Rightarrow> string \<Rightarrow> string list" where
  "split_acc cur [] = (if cur = [] then [] else [rev cur])"
| "split_acc cur (c # cs) =
     (if is_space c then (if cur = [] then split_acc [] cs else rev cur # split_acc [] cs)
      else split_acc (c # cur) cs)"

definition split :: "string \<Rightarrow> string list" where
  "split line = split_acc [] line"

text \<open>\<open>pat in line\<close>, and \<open>re.search(pat, line)\<close> for a pattern without metacharacters.\<close>

fun starts_with :: "string \<Rightarrow> string \<Rightarrow> bool" where
  "starts_with [] line = True"
| "starts_with (p # ps) [] = False"
| "starts_with (p # ps) (c # cs) = (p = c \<and> starts_with ps cs)"

fun contains :: "string \<Rightarrow> string \<Rightarrow> bool" where
  "contains pat [] = (pat = [])"
| "contains pat (c # cs) = (starts_with pat (c # cs) \<or> contains pat cs)"

text \<open>\<open>xs[i]\<close> for a non-negative \<open>i\<close>.\<close>

definition item :: "'a list \<Rightarrow> nat \<Rightarrow> error + 'a" where
  "item xs i = (if i < length xs then Inr (xs ! i) else Inl IndexError)"

text \<open>
  \<open>int(s)\<close> and \<open>float(s)\<close> are builtins of the language; the readers take them as
  parameters \<open>py_int\<close> and \<open>py_float\<close> that return \<open>None\<close> where the builtin raises
  \<open>ValueError\<close>. Floating-point values are read as reals.
\<close>

definition convert :: "(string \<Rightarrow> 'a option) \<Rightarrow> string \<Rightarrow> error + 'a" where
  "convert conv s = (case conv s of None \<Rightarrow> Inl ValueError | Some x \<Rightarrow> Inr x)"

section \<open>\<open>get_integrals_FCIDUMP\<close>\<close>

record integrals =
  E_core :: real
  spinor :: "(int, real) dict"
  one_body_int :: "(int \<times> int, real) dict"
  two_body_int :: "(int \<times> int \<times> int \<times> int, real) dict"

type_synonym dump_record = "real \<times> int \<times> int \<times> int \<times> int"

text \<open>
  The lines consumed by the loop that stops at the first line containing \<open>&END\<close> are
  dropped; \<open>f.readlines()\<close> gives the rest, which has \<open>num_lines - start_reading\<close>
  lines.
\<close>

fun skip_header :: "string list \<Rightarrow> string list" where
  "skip_header [] = []"
| "skip_header (line # rest) = (if contains ''&END'' line then rest else skip_header rest)"

text \<open>
  One row: tokens 1 to 4 are converted by \<open>int\<close> in this order, then token 0 by
  \<open>float\<close> (every branch of the source converts it first thing).
\<close>

definition read_row ::
  "(string \<Rightarrow> real option) \<Rightarrow> (string \<Rightarrow> int option) \<Rightarrow> string list \<Rightarrow> error + dump_record" where
  "read_row py_float py_int row =
     bind (item row 1) (\<lambda>t1. bind (convert py_int t1) (\<lambda>a_1.
     bind (item row 2) (\<lambda>t2. bind (convert py_int t2) (\<lambda>a_2.
     bind (item row 3) (\<lambda>t3. bind (convert py_int t3) (\<lambda>a_3.
     bind (item row 4) (\<lambda>t4. bind (convert py_int t4) (\<lambda>a_4.
     bind (item row 0) (\<lambda>t0. bind (convert py_float t0) (\<lambda>v.
     Inr (v, a_1, a_2, a_3, a_4)))))))))))"

definition store_record :: "integrals \<Rightarrow> dump_record \<Rightarrow> integrals" where
  "store_record st r =
     (case r of (v, a_1, a_2, a_3, a_4) \<Rightarrow>
        if a_4 = 0 \<and> a_3 = 0 then
          (if a_2 = 0 then
             (if a_1 = 0 then st\<lparr>E_core := v\<rparr>
              else st\<lparr>spinor := AList.update a_1 v (spinor st)\<rparr>)
           else st\<lparr>one_body_int := AList.update (a_1, a_2) v (one_body_int st)\<rparr>)
        else st\<lparr>two_body_int := AList.update (a_1, a_2, a_3, a_4) v (two_body_int st)\<rparr>)"

fun parse_rows ::
  "(string \<Rightarrow> real option) \<Rightarrow> (string \<Rightarrow> int option) \<Rightarrow> integrals \<Rightarrow> string list list
     \<Rightarrow> error + integrals" where
  "parse_rows py_float py_int st [] = Inr st"
| "parse_rows py_float py_int st (row # rows) =
     bind (read_row py_float py_int row)
       (\<lambda>r. parse_rows py_float py_int (store_record st r) rows)"

definition no_integrals :: integrals where
  "no_integrals = \<lparr>E_core = 0, spinor = [], one_body_int = [], two_body_int = []\<rparr>"

definition get_integrals_FCIDUMP ::
  "(string \<Rightarrow> real option) \<Rightarrow> (string \<Rightarrow> int option) \<Rightarrow> files \<Rightarrow> string \<Rightarrow> error + integrals" where
  "get_integrals_FCIDUMP py_float py_int fs name =
     (case fs (''FCIDUMP_'' @ name) of
        None \<Rightarrow> Inl FileNotFoundError
      | Some lines \<Rightarrow> parse_rows py_float py_int no_integrals (map split (skip_header lines)))"

section \<open>\<open>get_energies\<close>\<close>

record energies =
  hf_energy :: "string option"
  mp2_energy :: "string option"
  ccsd_energy :: "string option"

text \<open>
  \<open>line.rsplit(None, 1)[-1]\<close>: the characters after the last run of whitespace that
  is followed by a token; \<open>IndexError\<close> when the line holds no token at all.
\<close>

definition rsplit_last :: "string \<Rightarrow> error + string" where
  "rsplit_last line =
     (let r = dropWhile is_space (rev line)
      in if r = [] then Inl IndexError else Inr (rev (takeWhile (\<lambda>c. \<not> is_space c) r)))"

definition hf_label :: string where
  "hf_label = ''Total energy                             :''"

definition mp2_label :: string where
  "mp2_label = ''@ Total MP2 energy''"

definition ccsd_label :: string where
  "ccsd_label = ''@ Total CCSD energy''"

text \<open>The body of the loop over the lines: three independent tests, in this order.\<close>

definition scan_line :: "energies \<Rightarrow> string \<Rightarrow> error + energies" where
  "scan_line e line =
     bind (if contains hf_label line
           then bind (rsplit_last line) (\<lambda>t. Inr (e\<lparr>hf_energy := Some t\<rparr>)) else Inr e) (\<lambda>e1.
     bind (if contains mp2_label line
           then bind (rsplit_last line) (\<lambda>t. Inr (e1\<lparr>mp2_energy := Some t\<rparr>)) else Inr e1) (\<lambda>e2.
     if contains ccsd_label line
     then bind (rsplit_last line) (\<lambda>t. Inr (e2\<lparr>ccsd_energy := Some t\<rparr>)) else Inr e2))"

fun scan_lines :: "energies \<Rightarrow> string list \<Rightarrow> error + energies" where
  "scan_lines e [] = Inr e"
| "scan_lines e (line # rest) = bind (scan_line e line) (\<lambda>e'. scan_lines e' rest)"

definition get_energies :: "files \<Rightarrow> string \<Rightarrow> error + energies" where
  "get_energies fs name =
     (case fs (name @ ''.out'') of
        None \<Rightarrow> Inl FileNotFoundError
      | Some lines \<Rightarrow>
          scan_lines \<lparr>hf_energy = None, mp2_energy = None, ccsd_energy = None\<rparr> lines)"

section \<open>\<open>get_molecular_hamiltonian\<close>\<close>

text \<open>
  A \<open>numpy\<close> array of shape \<open>(n, n)\<close> or \<open>(n, n, n, n)\<close> is the function from index
  tuples to entries, together with \<open>n\<close>; \<open>numpy.zeros\<close> is the constant function. Every
  subscript the loops below write or read is below \<open>n\<close>: the loop variables range over
  \<open>range(n)\<close>, or over \<open>range(n // 2)\<close> where the subscripts are \<open>2 * p\<close> and
  \<open>2 * p + 1\<close>.
\<close>

type_synonym tensor2 = "nat \<times> nat \<Rightarrow> real"
type_synonym tensor4 = "nat \<times> nat \<times> nat \<times> nat \<Rightarrow> real"

definition zeros :: "'i \<Rightarrow> real" where
  "zeros = (\<lambda>idx. 0)"

text \<open>The 1-based dictionary keys \<open>(p+1, q+1)\<close> and \<open>(2*p+1, 2*q+1, 2*r+1, 2*s+1)\<close>.\<close>

definition key2 :: "nat \<Rightarrow> nat \<Rightarrow> int \<times> int" where
  "key2 p q = (int p + 1, int q + 1)"

definition key4 :: "nat \<Rightarrow> nat \<Rightarrow> nat \<Rightarrow> nat \<Rightarrow> int \<times> int \<times> int \<times> int" where
  "key4 p q r s = (int p + 1, int q + 1, int r + 1, int s + 1)"

subsection \<open>The relativistic branch\<close>

text \<open>
  The test \<open>self.relativistic is True\<close> in the innermost loop holds throughout this
  branch, \<open>relativistic\<close> being a Boolean.
\<close>

definition relativistic_two_body ::
  "(int \<times> int \<times> int \<times> int, real) dict \<Rightarrow> nat \<Rightarrow> nat \<Rightarrow> nat \<Rightarrow> tensor4 \<Rightarrow> tensor4" where
  "relativistic_two_body two_body_integrals n p q =
     fold (\<lambda>r. fold (\<lambda>s two.
        case map_of two_body_integrals (key4 p q r s) of
          None \<Rightarrow> two
        | Some v \<Rightarrow> two((p, r, s, q) := v / 2)) [0..<n]) [0..<n]"

definition relativistic_coefficients ::
  "(int \<times> int, real) dict \<Rightarrow> (int \<times> int \<times> int \<times> int, real) dict \<Rightarrow> nat
     \<Rightarrow> tensor2 \<times> tensor4 \<Rightarrow> tensor2 \<times> tensor4" where
  "relativistic_coefficients one_body_integrals two_body_integrals n =
     fold (\<lambda>p. fold (\<lambda>q (one, two).
        ((case map_of one_body_integrals (key2 p q) of
            None \<Rightarrow> one
          | Some v \<Rightarrow> one((p, q) := v)),
         relativistic_two_body two_body_integrals n p q two)) [0..<n]) [0..<n]"

subsection \<open>The restricted branch\<close>

definition mirror_one_body :: "(int \<times> int, real) dict \<Rightarrow> nat \<Rightarrow> tensor2 \<Rightarrow> tensor2" where
  "mirror_one_body one_body_integrals n =
     fold (\<lambda>p. fold (\<lambda>q one.
        case map_of one_body_integrals (key2 p q) of
          None \<Rightarrow> one
        | Some v \<Rightarrow> one((p, q) := v, (q, p) := v)) [0..<n]) [0..<n]"

text \<open>The body of the loop under the comment \<open>permutation symmetry\<close>.\<close>

definition symmetry_body ::
  "(int \<times> int \<times> int \<times> int, real) dict \<Rightarrow> nat \<Rightarrow> nat \<Rightarrow> nat \<Rightarrow> nat \<Rightarrow> tensor4 \<Rightarrow> tensor4" where
  "symmetry_body two_body_integrals p q r s two =
     (case map_of two_body_integrals (key4 (2 * p) (2 * q) (2 * r) (2 * s)) of
        None \<Rightarrow> two
      | Some v \<Rightarrow>
          two((2 * p, 2 * r, 2 * s, 2 * q) := v / 2,
              (2 * q, 2 * r, 2 * s, 2 * p) := v / 2,
              (2 * p, 2 * s, 2 * r, 2 * q) := v / 2,
              (2 * q, 2 * s, 2 * r, 2 * p) := v / 2,
              (2 * r, 2 * p, 2 * q, 2 * s) := v / 2,
              (2 * s, 2 * p, 2 * q, 2 * r) := v / 2,
              (2 * r, 2 * q, 2 * p, 2 * s) := v / 2,
              (2 * s, 2 * q, 2 * p, 2 * r) := v / 2))"

definition permutation_symmetry ::
  "(int \<times> int \<times> int \<times> int, real) dict \<Rightarrow> nat \<Rightarrow> tensor4 \<Rightarrow> tensor4" where
  "permutation_symmetry two_body_integrals n =
     fold (\<lambda>p. fold (\<lambda>q. fold (\<lambda>r. fold (\<lambda>s. symmetry_body two_body_integrals p q r s)
       [0..<n div 2]) [0..<n div 2]) [0..<n div 2]) [0..<n div 2]"

text \<open>The body of the loop under the comment \<open>restricted calculation\<close>.\<close>

definition restricted_body :: "nat \<Rightarrow> nat \<Rightarrow> nat \<Rightarrow> nat \<Rightarrow> tensor4 \<Rightarrow> tensor4" where
  "restricted_body p q r s two =
     (let two1 = two((2 * p + 1, 2 * q, 2 * r, 2 * s + 1) := two (2 * p, 2 * q, 2 * r, 2 * s));
          two2 = two1((2 * p, 2 * q + 1, 2 * r + 1, 2 * s) := two1 (2 * p, 2 * q, 2 * r, 2 * s))
      in two2((2 * p + 1, 2 * q + 1, 2 * r + 1, 2 * s + 1) := two2 (2 * p, 2 * q, 2 * r, 2 * s)))"

definition restricted_calculation :: "nat \<Rightarrow> tensor4 \<Rightarrow> tensor4" where
  "restricted_calculation n =
     fold (\<lambda>p. fold (\<lambda>q. fold (\<lambda>r. fold (\<lambda>s. restricted_body p q r s)
       [0..<n div 2]) [0..<n div 2]) [0..<n div 2]) [0..<n div 2]"

subsection \<open>Truncation and the result\<close>

text \<open>
  \<open>EQ_TOLERANCE\<close> comes from \<open>openfermion.config\<close>; it is the parameter \<open>tol\<close>.
\<close>

definition zero_below :: "real \<Rightarrow> ('i \<Rightarrow> real) \<Rightarrow> 'i \<Rightarrow> real" where
  "zero_below tol t = (\<lambda>idx. if \<bar>t idx\<bar> < tol then 0 else t idx)"

record molecular_hamiltonian =
  n_qubits :: nat
  interaction_constant :: real
  one_body_coefficients :: tensor2
  two_body_coefficients :: tensor4

text \<open>The tensors before the truncation, by branch.\<close>

definition coefficients ::
  "bool \<Rightarrow> (int \<times> int, real) dict \<Rightarrow> (int \<times> int \<times> int \<times> int, real) dict
     \<Rightarrow> tensor2 \<times> tensor4" where
  "coefficients relativistic one_body_integrals two_body_integrals =
     (let n = length one_body_integrals
      in if relativistic
         then relativistic_coefficients one_body_integrals two_body_integrals n (zeros, zeros)
         else (mirror_one_body one_body_integrals n zeros,
               restricted_calculation n (permutation_symmetry two_body_integrals n zeros)))"

definition hamiltonian_of :: "real \<Rightarrow> bool \<Rightarrow> integrals \<Rightarrow> molecular_hamiltonian" where
  "hamiltonian_of tol relativistic st =
     (case coefficients relativistic (one_body_int st) (two_body_int st) of
        (one, two) \<Rightarrow>
          \<lparr>n_qubits = length (one_body_int st), interaction_constant = E_core st,
           one_body_coefficients = zero_below tol one,
           two_body_coefficients = zero_below tol two\<rparr>)"

definition get_molecular_hamiltonian ::
  "real \<Rightarrow> (string \<Rightarrow> real option) \<Rightarrow> (string \<Rightarrow> int option) \<Rightarrow> files \<Rightarrow> string \<Rightarrow> bool
     \<Rightarrow> error + molecular_hamiltonian" where
  "get_molecular_hamiltonian tol py_float py_int fs name relativistic =
     bind (get_integrals_FCIDUMP py_float py_int fs name)
       (\<lambda>st. Inr (hamiltonian_of tol relativistic st))"


definition two_body_entry ::
  "molecular_hamiltonian \<Rightarrow> nat \<Rightarrow> nat \<Rightarrow> nat \<Rightarrow> nat \<Rightarrow> error + real" where
  "two_body_entry h i j k l =
     (if i < n_qubits h \<and> j < n_qubits h \<and> k < n_qubits h \<and> l < n_qubits h
      then Inr (two_body_coefficients h (i, j, k, l)) else Inl IndexError)"

section \<open>Notions used in the statements and proofs\<close>

text \<open>
  The classification as the specification words it, for comparison with
  \<open>store_record\<close>.
\<close>

datatype record_class =
  CoreEnergy | OrbitalEnergy int | OneBody "int \<times> int" | TwoBody "int \<times> int \<times> int \<times> int"

definition spec_class :: "dump_record \<Rightarrow> record_class" where
  "spec_class r =
     (case r of (v, a, b, c, d) \<Rightarrow>
        if d = 0 \<and> c = 0 \<and> b = 0 \<and> a = 0 then CoreEnergy
        else if d = 0 \<and> c = 0 \<and> b = 0 \<and> a \<noteq> 0 then OrbitalEnergy a
        else if d = 0 \<and> c = 0 \<and> b \<noteq> 0 then OneBody (a, b)
        else TwoBody (a, b, c, d))"

definition last_value :: "record_class \<Rightarrow> dump_record list \<Rightarrow> real option" where
  "last_value cl recs =
     (case filter (\<lambda>r. spec_class r = cl) recs of [] \<Rightarrow> None | rs \<Rightarrow> Some (fst (last rs)))"

text \<open>All records of a dump stored in turn, as the loop over the rows does.\<close>

definition store_all :: "integrals \<Rightarrow> dump_record list \<Rightarrow> integrals" where
  "store_all st recs = fold (\<lambda>r s. store_record s r) recs st"

text \<open>The last whitespace-delimited token of a line that has one.\<close>

definition last_token :: "string \<Rightarrow> string" where
  "last_token line = rev (takeWhile (\<lambda>c. \<not> is_space c) (dropWhile is_space (rev line)))"

text \<open>The token taken from the last line that contains the label, if any.\<close>

definition token_of_last :: "string \<Rightarrow> string list \<Rightarrow> string option" where
  "token_of_last label lines =
     (case filter (contains label) lines of [] \<Rightarrow> None | ms \<Rightarrow> Some (last_token (last ms)))"

text \<open>
  The specification's reading of the scanner: the token taken from the first line that
  contains the label.
\<close>

definition token_of_first :: "string \<Rightarrow> string list \<Rightarrow> string option" where
  "token_of_first label lines =
     (case filter (contains label) lines of [] \<Rightarrow> None | m # ms \<Rightarrow> Some (last_token m))"

text \<open>The index tuples that four nested loops over \<open>range(m)\<close> go through, in order.\<close>

definition range4 :: "nat \<Rightarrow> (nat \<times> nat \<times> nat \<times> nat) list" where
  "range4 m = List.product [0..<m] (List.product [0..<m] (List.product [0..<m] [0..<m]))"

text \<open>
  The change of convention: \<open>(p, q, r, s)\<close> in Dirac reads \<open>(p, r, s, q)\<close> in
  OpenFermion, and back.
\<close>

definition physicist :: "nat \<times> nat \<times> nat \<times> nat \<Rightarrow> nat \<times> nat \<times> nat \<times> nat" where
  "physicist c = (case c of (p, q, r, s) \<Rightarrow> (p, r, s, q))"


text \<open>
  The body of the one-body loop of the restricted branch, on the index pair \<open>x = (p, q)\<close>:
  the two entries written are \<open>x\<close> and its mirror image.
\<close>

definition key_of :: "nat \<times> nat \<Rightarrow> int \<times> int" where
  "key_of x = key2 (fst x) (snd x)"

definition mirror_body :: "(int \<times> int, real) dict \<Rightarrow> nat \<times> nat \<Rightarrow> tensor2 \<Rightarrow> tensor2" where
  "mirror_body obi x one =
     (case map_of obi (key_of x) of
        None \<Rightarrow> one
      | Some v \<Rightarrow> one(x := v, prod.swap x := v))"

text \<open>The value \<open>x\<close> is stored under the key of entry \<open>c\<close> or under the mirrored key.\<close>

definition stored_under :: "(int \<times> int, real) dict \<Rightarrow> nat \<times> nat \<Rightarrow> real \<Rightarrow> bool" where
  "stored_under obi c x \<longleftrightarrow>
     map_of obi (key_of c) = Some x \<or> map_of obi (key_of (prod.swap c)) = Some x"

text \<open>
  The eight index tuples that the specification's symmetry group generates from
  \<open>(p, q, r, s)\<close>, in the order it lists them.
\<close>

definition sym8 :: "'a \<times> 'a \<times> 'a \<times> 'a \<Rightarrow> ('a \<times> 'a \<times> 'a \<times> 'a) list" where
  "sym8 x = (case x of (p, q, r, s) \<Rightarrow>
     [(p, q, r, s), (q, p, r, s), (p, q, s, r), (q, p, s, r),
      (r, s, p, q), (s, r, p, q), (r, s, q, p), (s, r, q, p)])"

text \<open>The even (spin-up) position of a tuple of spatial indices.\<close>

definition spin_up :: "nat \<times> nat \<times> nat \<times> nat \<Rightarrow> nat \<times> nat \<times> nat \<times> nat" where
  "spin_up x = (case x of (p, q, r, s) \<Rightarrow> (2 * p, 2 * q, 2 * r, 2 * s))"

text \<open>The specification's eight target entries: the permuted tuples at even positions.\<close>

definition cells8 :: "nat \<times> nat \<times> nat \<times> nat \<Rightarrow> (nat \<times> nat \<times> nat \<times> nat) list" where
  "cells8 x = map (\<lambda>y. spin_up (physicist y)) (sym8 x)"

text \<open>
  The eight entries that the assignments of the \<open>permutation symmetry\<close> loop write, in
  the order of the source lines, and the four entries that the specification's step 3
  relates.
\<close>

definition written_cells :: "nat \<Rightarrow> nat \<Rightarrow> nat \<Rightarrow> nat \<Rightarrow> (nat \<times> nat \<times> nat \<times> nat) list" where
  "written_cells p q r s =
     [(2 * p, 2 * r, 2 * s, 2 * q), (2 * q, 2 * r, 2 * s, 2 * p),
      (2 * p, 2 * s, 2 * r, 2 * q), (2 * q, 2 * s, 2 * r, 2 * p),
      (2 * r, 2 * p, 2 * q, 2 * s), (2 * s, 2 * p, 2 * q, 2 * r),
      (2 * r, 2 * q, 2 * p, 2 * s), (2 * s, 2 * q, 2 * p, 2 * r)]"

definition sector_cells :: "nat \<Rightarrow> nat \<Rightarrow> nat \<Rightarrow> nat \<Rightarrow> (nat \<times> nat \<times> nat \<times> nat) list" where
  "sector_cells p q r s =
     [(2 * p + 1, 2 * q, 2 * r, 2 * s + 1), (2 * p + 1, 2 * q + 1, 2 * r + 1, 2 * s + 1),
      (2 * p, 2 * q + 1, 2 * r + 1, 2 * s), (2 * p, 2 * q, 2 * r, 2 * s)]"

definition pairwise_equal :: "('i \<Rightarrow> real) \<Rightarrow> 'i list \<Rightarrow> bool" where
  "pairwise_equal t cs \<longleftrightarrow> (\<forall>c \<in> set cs. \<forall>c' \<in> set cs. t c = t c')"

text \<open>
  The invariant of the \<open>permutation symmetry\<close> loop, the entries that the
  \<open>restricted calculation\<close> loop writes (the three spin sectors), the spatial indices of
  an entry and the key of a tuple of spatial indices.
\<close>

definition symmetric8 :: "tensor4 \<Rightarrow> bool" where
  "symmetric8 t \<longleftrightarrow>
     (\<forall>x. \<forall>y \<in> set (sym8 x). t (spin_up (physicist y)) = t (spin_up (physicist x)))"

definition spin_sector :: "nat \<times> nat \<times> nat \<times> nat \<Rightarrow> bool" where
  "spin_sector c = (case c of (a, b, c', d) \<Rightarrow>
     (odd a \<and> even b \<and> even c' \<and> odd d) \<or> (even a \<and> odd b \<and> odd c' \<and> even d)
     \<or> (odd a \<and> odd b \<and> odd c' \<and> odd d))"

definition half4 :: "nat \<times> nat \<times> nat \<times> nat \<Rightarrow> nat \<times> nat \<times> nat \<times> nat" where
  "half4 c = (case c of (a, b, c', d) \<Rightarrow> (a div 2, b div 2, c' div 2, d div 2))"

definition up_key :: "nat \<times> nat \<times> nat \<times> nat \<Rightarrow> int \<times> int \<times> int \<times> int" where
  "up_key x = (case x of (p, q, r, s) \<Rightarrow>
     (2 * int p + 1, 2 * int q + 1, 2 * int r + 1, 2 * int s + 1))"

text \<open>All four indices of an entry are below the bound.\<close>

definition inside :: "nat \<Rightarrow> nat \<times> nat \<times> nat \<times> nat \<Rightarrow> bool" where
  "inside b c = (case c of (i, j, k, l) \<Rightarrow> i < b \<and> j < b \<and> k < b \<and> l < b)"

section \<open>Concrete inputs\<close>

definition demo_float :: "string \<Rightarrow> real option" where
  "demo_float s = (if s = ''0.5'' then Some (1/2) else if s = ''0.25'' then Some (1/4) else None)"

definition demo_int :: "string \<Rightarrow> int option" where
  "demo_int s = (if s = ''0'' then Some 0 else if s = ''1'' then Some 1
                else if s = ''2'' then Some 2 else if s = ''3'' then Some 3 else None)"

definition demo_dump :: "string list" where
  "demo_dump = ['' &FCI NORB=2,'', '' &END'', ''0.5 1 1 0 0'', ''0.25  1 1 0 0 '',
                ''0.5 1 2 1 2'', ''0.25 0 0 0 0'', ''0.5 2 0 0 0'']"

definition demo_files :: files where
  "demo_files path = (if path = ''FCIDUMP_H2'' then Some demo_dump else None)"

definition demo_records :: "dump_record list" where
  "demo_records = [(1/2, 1, 1, 0, 0), (1/4, 1, 1, 0, 0), (1/2, 1, 2, 1, 2), (1/4, 0, 0, 0, 0),
                   (1/2, 2, 0, 0, 0)]"

definition demo_log :: "string list" where
  "demo_log = [''Total energy                             :   -1.0'',
               '' @ Total MP2 energy :  -1.5 '',
               ''Total energy                             :   -2.0'']"

definition demo_log_files :: files where
  "demo_log_files path = (if path = ''H2.out'' then Some demo_log else None)"




definition odd_keys_one_body :: "(int \<times> int, real) dict" where
  "odd_keys_one_body = [((1, 1), 1/2), ((1, 3), 1/4), ((3, 3), 1/8), ((3, 1), 1/4)]"

definition conflicting_two_body :: "(int \<times> int \<times> int \<times> int, real) dict" where
  "conflicting_two_body = [((1, 1, 3, 3), 1), ((3, 3, 1, 1), 2), ((1, 1, 1, 1), 4/10)]"

definition odd_dump :: "string list" where
  "odd_dump = ['' &FCI NORB=2,'', '' &END'', ''0.5 1 1 0 0'', ''0.25 1 3 0 0'', ''0.5 3 3 0 0'',
               ''0.5 1 1 1 1'', ''0.25 0 0 0 0'']"

definition full_dump :: "string list" where
  "full_dump = ['' &FCI NORB=2,'', '' &END'', ''0.5 1 1 0 0'', ''0.25 1 2 0 0'', ''0.25 2 1 0 0'',
                ''0.5 2 2 0 0'', ''0.5 1 0 0 0'', ''0.25 2 0 0 0'', ''0.5 0 0 0 0'']"

definition dump_files :: files where
  "dump_files path =
     (if path = ''FCIDUMP_odd'' then Some odd_dump
      else if path = ''FCIDUMP_full'' then Some full_dump else None)"

definition single_two_body :: "(int \<times> int \<times> int \<times> int, real) dict" where
  "single_two_body = [((1, 1, 3, 3), 1)]"

section \<open>Properties of the dump parser\<close>

lemma store_record_spec:
  "store_record st (v, a, b, c, d) =
     (case spec_class (v, a, b, c, d) of
        CoreEnergy \<Rightarrow> st\<lparr>E_core := v\<rparr>
      | OrbitalEnergy k \<Rightarrow> st\<lparr>spinor := AList.update k v (spinor st)\<rparr>
      | OneBody k \<Rightarrow> st\<lparr>one_body_int := AList.update k v (one_body_int st)\<rparr>
      | TwoBody k \<Rightarrow> st\<lparr>two_body_int := AList.update k v (two_body_int st)\<rparr>)"
  by (simp add: store_record_def spec_class_def)

lemma last_value_Cons:
  "last_value cl (r # recs) =
     (case last_value cl recs of
        Some v \<Rightarrow> Some v
      | None \<Rightarrow> if spec_class r = cl then Some (fst r) else None)"
  by (simp add: last_value_def split: list.splits)

lemma store_all_lookup:
  "E_core (store_all st recs)
     = (case last_value CoreEnergy recs of None \<Rightarrow> E_core st | Some v \<Rightarrow> v)
   \<and> map_of (spinor (store_all st recs)) a
     = (case last_value (OrbitalEnergy a) recs of None \<Rightarrow> map_of (spinor st) a | Some v \<Rightarrow> Some v)
   \<and> map_of (one_body_int (store_all st recs)) k1
     = (case last_value (OneBody k1) recs of None \<Rightarrow> map_of (one_body_int st) k1
        | Some v \<Rightarrow> Some v)
   \<and> map_of (two_body_int (store_all st recs)) k2
     = (case last_value (TwoBody k2) recs of None \<Rightarrow> map_of (two_body_int st) k2
        | Some v \<Rightarrow> Some v)"
proof (induction recs arbitrary: st)
  case Nil
  show ?case by (simp add: store_all_def last_value_def)
next
  case (Cons r recs)
  obtain v a b c d where r: "r = (v, a, b, c, d)" by (cases r)
  have "store_all st (r # recs) = store_all (store_record st r) recs"
    by (simp add: store_all_def)
  then show ?case
    using Cons.IH [of "store_record st r"]
    by (auto simp: last_value_Cons r store_record_spec update_conv'
        split: option.splits record_class.splits)
qed

lemma parse_rows_store_all:
  "map (read_row pflt pint) rows = map Inr recs \<Longrightarrow>
     parse_rows pflt pint st rows = Inr (store_all st recs)"
proof (induction rows arbitrary: st recs)
  case Nil
  then show ?case by (simp add: store_all_def)
next
  case (Cons row rows)
  then obtain r recs' where recs: "recs = r # recs'" by (cases recs) auto
  with Cons show ?case by (simp add: bind_def store_all_def)
qed

text \<open>
  C4: every record \<open>(v, a, b, c, d)\<close> is classified by its trailing zeros, in the order
  core energy (all four indices zero), orbital energy of \<open>a\<close> (\<open>d\<close>, \<open>c\<close>, \<open>b\<close> zero and
  \<open>a\<close> not), one-body integral keyed \<open>(a, b)\<close> (\<open>d\<close>, \<open>c\<close> zero and \<open>b\<close> not), two-body
  integral keyed \<open>(a, b, c, d)\<close> otherwise. The keys are the indices as read, and after
  a dump whose rows all convert, each key holds the value of the last record that has
  it: a repeated key is neither rejected nor merged.
\<close>

theorem dump_parser_classification:
  assumes present: "fs (''FCIDUMP_'' @ name) = Some lines"
    and rows: "map (read_row py_float py_int) (map split (skip_header lines)) = map Inr recs"
  shows "(\<exists>st. get_integrals_FCIDUMP py_float py_int fs name = Inr st
           \<and> E_core st = (case last_value CoreEnergy recs of None \<Rightarrow> 0 | Some v \<Rightarrow> v)
           \<and> (\<forall>a. map_of (spinor st) a = last_value (OrbitalEnergy a) recs)
           \<and> (\<forall>a b. map_of (one_body_int st) (a, b) = last_value (OneBody (a, b)) recs)
           \<and> (\<forall>a b c d. map_of (two_body_int st) (a, b, c, d)
                  = last_value (TwoBody (a, b, c, d)) recs))
         \<and> store_record st0 (v, a, b, c, d) =
           (if d = 0 \<and> c = 0 \<and> b = 0 \<and> a = 0 then st0\<lparr>E_core := v\<rparr>
            else if d = 0 \<and> c = 0 \<and> b = 0 \<and> a \<noteq> 0
              then st0\<lparr>spinor := AList.update a v (spinor st0)\<rparr>
            else if d = 0 \<and> c = 0 \<and> b \<noteq> 0
              then st0\<lparr>one_body_int := AList.update (a, b) v (one_body_int st0)\<rparr>
            else st0\<lparr>two_body_int := AList.update (a, b, c, d) v (two_body_int st0)\<rparr>)"
proof -
  have "get_integrals_FCIDUMP py_float py_int fs name = Inr (store_all no_integrals recs)"
    using present parse_rows_store_all [OF rows] by (simp add: get_integrals_FCIDUMP_def)
  moreover have "E_core no_integrals = 0" "spinor no_integrals = []"
    "one_body_int no_integrals = []" "two_body_int no_integrals = []"
    by (simp_all add: no_integrals_def)
  ultimately have "\<exists>st. get_integrals_FCIDUMP py_float py_int fs name = Inr st
           \<and> E_core st = (case last_value CoreEnergy recs of None \<Rightarrow> 0 | Some v \<Rightarrow> v)
           \<and> (\<forall>a. map_of (spinor st) a = last_value (OrbitalEnergy a) recs)
           \<and> (\<forall>a b. map_of (one_body_int st) (a, b) = last_value (OneBody (a, b)) recs)
           \<and> (\<forall>a b c d. map_of (two_body_int st) (a, b, c, d)
                  = last_value (TwoBody (a, b, c, d)) recs)"
    by (simp add: store_all_lookup split: option.splits)
  then show ?thesis
    by (simp add: store_record_def)
qed

lemma demo_rows:
  "map (read_row demo_float demo_int) (map split (skip_header demo_dump)) = map Inr demo_records"
  by (simp add: demo_dump_def demo_records_def split_def is_space_def read_row_def bind_def
      item_def convert_def demo_float_def demo_int_def)

theorem dump_parser_classification_witness:
  "demo_files (''FCIDUMP_'' @ ''H2'') = Some demo_dump
   \<and> map (read_row demo_float demo_int) (map split (skip_header demo_dump)) = map Inr demo_records
   \<and> (\<exists>st. get_integrals_FCIDUMP demo_float demo_int demo_files ''H2'' = Inr st
         \<and> E_core st = 1/4
         \<and> map_of (spinor st) 2 = Some (1/2)
         \<and> map_of (one_body_int st) (1, 1) = Some (1/4)
         \<and> map_of (two_body_int st) (1, 2, 1, 2) = Some (1/2)
         \<and> map_of (two_body_int st) (1, 1, 0, 0) = None)"
proof -
  have present: "demo_files (''FCIDUMP_'' @ ''H2'') = Some demo_dump"
    by (simp add: demo_files_def)
  have "\<exists>st. get_integrals_FCIDUMP demo_float demo_int demo_files ''H2'' = Inr st
         \<and> E_core st = (case last_value CoreEnergy demo_records of None \<Rightarrow> 0 | Some v \<Rightarrow> v)
         \<and> (\<forall>a. map_of (spinor st) a = last_value (OrbitalEnergy a) demo_records)
         \<and> (\<forall>a b. map_of (one_body_int st) (a, b) = last_value (OneBody (a, b)) demo_records)
         \<and> (\<forall>a b c d. map_of (two_body_int st) (a, b, c, d)
                = last_value (TwoBody (a, b, c, d)) demo_records)"
    using dump_parser_classification [where fs = demo_files and name = "''H2''" and lines = demo_dump
        and py_float = demo_float and py_int = demo_int and recs = demo_records
        and ?st0.0 = no_integrals and v = 0 and a = 0 and b = 0 and c = 0 and d = 0,
        OF present demo_rows]
    by blast
  then obtain st where st: "get_integrals_FCIDUMP demo_float demo_int demo_files ''H2'' = Inr st"
    "E_core st = (case last_value CoreEnergy demo_records of None \<Rightarrow> 0 | Some v \<Rightarrow> v)"
    "\<And>a. map_of (spinor st) a = last_value (OrbitalEnergy a) demo_records"
    "\<And>a b. map_of (one_body_int st) (a, b) = last_value (OneBody (a, b)) demo_records"
    "\<And>a b c d. map_of (two_body_int st) (a, b, c, d) = last_value (TwoBody (a, b, c, d)) demo_records"
    by blast
  have "E_core st = 1/4" "map_of (spinor st) 2 = Some (1/2)"
    "map_of (one_body_int st) (1, 1) = Some (1/4)"
    "map_of (two_body_int st) (1, 2, 1, 2) = Some (1/2)"
    "map_of (two_body_int st) (1, 1, 0, 0) = None"
    unfolding st by (simp_all add: last_value_def spec_class_def demo_records_def)
  with st(1) present demo_rows show ?thesis by blast
qed

section \<open>Properties of the energy-log scanner\<close>

lemma starts_with_set: "starts_with pat line \<Longrightarrow> set pat \<subseteq> set line"
  by (induction pat line rule: starts_with.induct) auto

lemma contains_set: "contains pat line \<Longrightarrow> set pat \<subseteq> set line"
proof (induction line)
  case Nil
  then show ?case by simp
next
  case (Cons c cs)
  then show ?case using starts_with_set [of pat "c # cs"] by auto
qed

lemma rsplit_last_token:
  assumes "c \<in> set line" "\<not> is_space c"
  shows "rsplit_last line = Inr (last_token line)"
proof -
  have "dropWhile is_space (rev line) \<noteq> []"
    using assms by (auto simp: dropWhile_eq_Nil_conv)
  then show ?thesis by (simp add: rsplit_last_def last_token_def Let_def)
qed

lemma rsplit_last_labelled:
  assumes "contains label line" "c \<in> set label" "\<not> is_space c"
  shows "rsplit_last line = Inr (last_token line)"
  using contains_set [OF assms(1)] assms(2,3) by (blast intro: rsplit_last_token)

lemma hf_label_line:
  assumes "contains hf_label line"
  shows "rsplit_last line = Inr (last_token line)"
proof -
  have "CHR ''T'' \<in> set hf_label" by (simp add: hf_label_def)
  moreover have "\<not> is_space CHR ''T''" by (simp add: is_space_def)
  ultimately show ?thesis using assms by (rule rsplit_last_labelled [rotated])
qed

lemma mp2_label_line:
  assumes "contains mp2_label line"
  shows "rsplit_last line = Inr (last_token line)"
proof -
  have "CHR ''T'' \<in> set mp2_label" by (simp add: mp2_label_def)
  moreover have "\<not> is_space CHR ''T''" by (simp add: is_space_def)
  ultimately show ?thesis using assms by (rule rsplit_last_labelled [rotated])
qed

lemma ccsd_label_line:
  assumes "contains ccsd_label line"
  shows "rsplit_last line = Inr (last_token line)"
proof -
  have "CHR ''T'' \<in> set ccsd_label" by (simp add: ccsd_label_def)
  moreover have "\<not> is_space CHR ''T''" by (simp add: is_space_def)
  ultimately show ?thesis using assms by (rule rsplit_last_labelled [rotated])
qed

lemma scan_line_eq:
  "scan_line e line =
     Inr \<lparr>hf_energy = (if contains hf_label line then Some (last_token line) else hf_energy e),
          mp2_energy = (if contains mp2_label line then Some (last_token line) else mp2_energy e),
          ccsd_energy = (if contains ccsd_label line then Some (last_token line) else ccsd_energy e)\<rparr>"
  by (simp add: scan_line_def bind_def hf_label_line mp2_label_line ccsd_label_line)

lemma token_of_last_Cons:
  "token_of_last label (line # rest) =
     (case token_of_last label rest of
        Some t \<Rightarrow> Some t
      | None \<Rightarrow> if contains label line then Some (last_token line) else None)"
  by (simp add: token_of_last_def split: list.splits)

lemma scan_lines_eq:
  "scan_lines e lines =
     Inr \<lparr>hf_energy = (case token_of_last hf_label lines of None \<Rightarrow> hf_energy e | Some t \<Rightarrow> Some t),
          mp2_energy = (case token_of_last mp2_label lines of None \<Rightarrow> mp2_energy e | Some t \<Rightarrow> Some t),
          ccsd_energy = (case token_of_last ccsd_label lines of None \<Rightarrow> ccsd_energy e | Some t \<Rightarrow> Some t)\<rparr>"
proof (induction lines arbitrary: e)
  case Nil
  show ?case by (simp add: token_of_last_def)
next
  case (Cons line rest)
  show ?case
    by (simp add: scan_line_eq bind_def Cons.IH token_of_last_Cons split: option.splits)
qed

text \<open>
  C7, as the code has it: when the log exists the scanner raises nothing and returns,
  for each of the three labels, the last whitespace-delimited token of the last line
  that contains the label (every matching line overwrites the result of the one
  before), as a string; the result of a label that no line contains is \<open>None\<close>.
\<close>

theorem energy_scanner_last_match:
  assumes "fs (name @ ''.out'') = Some lines"
  shows "get_energies fs name =
           Inr \<lparr>hf_energy = token_of_last hf_label lines,
                mp2_energy = token_of_last mp2_label lines,
                ccsd_energy = token_of_last ccsd_label lines\<rparr>"
  using assms by (simp add: get_energies_def scan_lines_eq split: option.splits)

theorem energy_scanner_last_match_witness:
  "demo_log_files (''H2'' @ ''.out'') = Some demo_log
   \<and> get_energies demo_log_files ''H2'' =
       Inr \<lparr>hf_energy = Some ''-2.0'', mp2_energy = Some ''-1.5'', ccsd_energy = None\<rparr>"
proof -
  have present: "demo_log_files (''H2'' @ ''.out'') = Some demo_log"
    by (simp add: demo_log_files_def)
  have "token_of_last hf_label demo_log = Some ''-2.0''"
    "token_of_last mp2_label demo_log = Some ''-1.5''"
    "token_of_last ccsd_label demo_log = None"
    by (simp_all add: token_of_last_def demo_log_def hf_label_def mp2_label_def ccsd_label_def
        last_token_def is_space_def)
  with energy_scanner_last_match [where fs = demo_log_files and name = "''H2''", OF present]
    present show ?thesis by simp
qed

text \<open>
  A log with two Hartree-Fock lines: the first one carries \<open>-1.0\<close>, the scanner
  returns \<open>-2.0\<close>.
\<close>

theorem energy_scanner_first_match_counterexample:
  "token_of_first hf_label demo_log = Some ''-1.0''
   \<and> map_sum id hf_energy (get_energies demo_log_files ''H2'') = Inr (Some ''-2.0'')"
  by (simp add: get_energies_def demo_log_files_def demo_log_def token_of_first_def hf_label_def
      mp2_label_def ccsd_label_def last_token_def is_space_def scan_line_def bind_def
      rsplit_last_def)

section \<open>The missing-input condition\<close>

lemma read_row_error: "read_row pflt pint row \<noteq> Inl FileNotFoundError"
  by (auto simp: read_row_def bind_def item_def convert_def split: option.splits)

lemma parse_rows_error: "parse_rows pflt pint st rows \<noteq> Inl FileNotFoundError"
proof (induction rows arbitrary: st)
  case Nil
  show ?case by simp
next
  case (Cons row rows)
  show ?case
    using read_row_error [of pflt pint row] Cons.IH
    by (cases "read_row pflt pint row") (auto simp: bind_def)
qed

text \<open>
  C8: each reader raises \<open>FileNotFoundError\<close> exactly when its file, \<open>FCIDUMP_\<close>
  followed by the name for the dump and the name followed by \<open>.out\<close> for the log, does
  not exist. The exception is a type of its own, different from the \<open>IndexError\<close> and
  \<open>ValueError\<close> that a malformed row raises, so a caller can catch it alone.
\<close>

theorem missing_input_condition:
  "(get_integrals_FCIDUMP py_float py_int fs name = Inl FileNotFoundError
      \<longleftrightarrow> fs (''FCIDUMP_'' @ name) = None)
   \<and> (get_energies fs name = Inl FileNotFoundError \<longleftrightarrow> fs (name @ ''.out'') = None)
   \<and> FileNotFoundError \<noteq> IndexError \<and> FileNotFoundError \<noteq> ValueError"
  by (auto simp: get_integrals_FCIDUMP_def get_energies_def scan_lines_eq parse_rows_error
      split: option.splits)

theorem missing_input_condition_witness:
  "get_integrals_FCIDUMP demo_float demo_int demo_files ''He'' = Inl FileNotFoundError
   \<and> get_integrals_FCIDUMP demo_float demo_int demo_files ''H2'' \<noteq> Inl FileNotFoundError
   \<and> get_energies demo_log_files ''He'' = Inl FileNotFoundError
   \<and> get_energies demo_log_files ''H2'' \<noteq> Inl FileNotFoundError"
  using missing_input_condition [of demo_float demo_int demo_files "''He''"]
    missing_input_condition [of demo_float demo_int demo_files "''H2''"]
    missing_input_condition [of demo_float demo_int demo_log_files "''He''"]
    missing_input_condition [of demo_float demo_int demo_log_files "''H2''"]
  by (simp add: demo_files_def demo_log_files_def)

section \<open>Nested loops as one fold\<close>

lemma fold_product:
  "fold (\<lambda>x. fold (\<lambda>y. f x y) ys) xs = fold (\<lambda>(x, y). f x y) (List.product xs ys)"
  by (induction xs) (simp_all add: fold_map comp_def)

lemma fold_range4:
  "fold (\<lambda>p. fold (\<lambda>q. fold (\<lambda>r. fold (\<lambda>s. f p q r s) [0..<m]) [0..<m]) [0..<m]) [0..<m]
     = fold (\<lambda>(p, q, r, s). f p q r s) (range4 m)"
  by (simp add: fold_product range4_def)

lemma set_range4: "set (range4 m) = {(p, q, r, s). p < m \<and> q < m \<and> r < m \<and> s < m}"
  by (auto simp: range4_def)




section \<open>The relativistic branch\<close>








section \<open>Truncation\<close>

text \<open>
  C9: the one-body and the two-body tensor of the result are each the untruncated
  tensor with every entry of magnitude below the tolerance set to zero and the others
  kept. Truncating again with the same tolerance changes nothing, and for tolerances
  \<open>t1 \<le> t2\<close> every entry that is zero after truncation at \<open>t1\<close> is zero after
  truncation at \<open>t2\<close>.
\<close>

theorem truncation_idempotent_monotone:
  assumes le: "t1 \<le> t2"
  shows "one_body_coefficients (hamiltonian_of tol rel st)
           = zero_below tol (fst (coefficients rel (one_body_int st) (two_body_int st)))
       \<and> two_body_coefficients (hamiltonian_of tol rel st)
           = zero_below tol (snd (coefficients rel (one_body_int st) (two_body_int st)))
       \<and> zero_below tol t idx = (if \<bar>t idx\<bar> < tol then 0 else t idx)
       \<and> zero_below tol (zero_below tol t) = zero_below tol t
       \<and> (\<bar>t idx\<bar> < t1 \<longrightarrow> zero_below t1 t idx = 0 \<and> zero_below t2 t idx = 0)
       \<and> (zero_below t1 t idx = 0 \<longrightarrow> zero_below t2 t idx = 0)
       \<and> (one_body_coefficients (hamiltonian_of t1 rel st) ix2 = 0
            \<longrightarrow> one_body_coefficients (hamiltonian_of t2 rel st) ix2 = 0)
       \<and> (two_body_coefficients (hamiltonian_of t1 rel st) ix4 = 0
            \<longrightarrow> two_body_coefficients (hamiltonian_of t2 rel st) ix4 = 0)"
  using le by (auto simp: hamiltonian_of_def zero_below_def fun_eq_iff split: prod.splits if_splits)

theorem truncation_idempotent_monotone_witness:
  "(1/100 :: real) \<le> 1/10
   \<and> zero_below (1/100) (\<lambda>i::nat. 1/20) 0 = 1/20
   \<and> zero_below (1/10) (\<lambda>i::nat. 1/20) 0 = 0
   \<and> zero_below (1/10) (zero_below (1/10) (\<lambda>i::nat. 1/20)) = zero_below (1/10) (\<lambda>i::nat. 1/20)"
proof -
  have le: "(1/100 :: real) \<le> 1/10" by simp
  show ?thesis
    using truncation_idempotent_monotone [OF le, of "1/10" True no_integrals "\<lambda>i::nat. 1/20" 0 "(0,0)" "(0,0,0,0)"]
    by (simp add: zero_below_def)
qed

section \<open>The restricted branch: one-body integrals\<close>

lemma fold_establish:
  assumes "x \<in> set xs" "\<And>s. Q (f x s)" "\<And>y s. Q s \<Longrightarrow> Q (f y s)"
  shows "Q (fold f xs s)"
  using assms(1)
proof (induction xs arbitrary: s)
  case Nil
  then show ?case by simp
next
  case (Cons a xs)
  show ?case
  proof (cases "x = a")
    case True
    have "Q (fold f xs (f a s))"
      by (rule fold_invariant [where Q = "\<lambda>y. True" and P = Q]) (simp_all add: True [symmetric] assms(2,3))
    then show ?thesis by simp
  next
    case False
    with Cons.prems have "x \<in> set xs" by simp
    then show ?thesis using Cons.IH by simp
  qed
qed

lemma mirror_one_body_fold:
  "mirror_one_body obi n = fold (mirror_body obi) (List.product [0..<n] [0..<n])"
proof -
  have "mirror_one_body obi n =
      fold (\<lambda>(p, q) one. case map_of obi (key2 p q) of None \<Rightarrow> one
                                          | Some v \<Rightarrow> one((p, q) := v, (q, p) := v))
        (List.product [0..<n] [0..<n])"
    unfolding mirror_one_body_def by (rule fold_product)
  also have "(\<lambda>(p, q) one. case map_of obi (key2 p q) of None \<Rightarrow> one
                                          | Some v \<Rightarrow> one((p, q) := v, (q, p) := v))
      = mirror_body obi"
  proof (rule ext, rule ext)
    fix x :: "nat \<times> nat" and one :: tensor2
    obtain p q where x: "x = (p, q)" by (cases x)
    show "(case x of (p, q) \<Rightarrow> \<lambda>one. case map_of obi (key2 p q) of None \<Rightarrow> one
                                          | Some v \<Rightarrow> one((p, q) := v, (q, p) := v)) one
        = mirror_body obi x one"
      unfolding x mirror_body_def key_of_def by (simp only: prod.case fst_conv snd_conv swap_simp)
  qed
  finally show ?thesis .
qed

lemma fold_same_value:
  "fold (\<lambda>k t. t(k := v)) ks t c = (if c \<in> set ks then v else t c)"
  by (induction ks arbitrary: t) auto

lemma mirror_body_cell:
  "mirror_body obi x s c =
     (case map_of obi (key_of x) of
        None \<Rightarrow> s c
      | Some v \<Rightarrow> if c \<in> {x, prod.swap x} then v else s c)"
proof (cases "map_of obi (key_of x)")
  case None
  then show ?thesis by (simp add: mirror_body_def)
next
  case (Some v)
  have "s(x := v, prod.swap x := v) = fold (\<lambda>k t. t(k := v)) [x, prod.swap x] s"
    by (simp only: fold.simps comp_def id_def)
  then have "mirror_body obi x s c = (if c \<in> set [x, prod.swap x] then v else s c)"
    by (simp only: mirror_body_def Some option.case fold_same_value)
  also have "set [x, prod.swap x] = {x, prod.swap x}"
    by (simp only: list.set)
  finally show ?thesis
    by (simp only: Some option.case)
qed

lemma stored_under_swap: "stored_under obi (prod.swap c) v = stored_under obi c v"
  unfolding stored_under_def by (simp only: swap_swap) blast

lemma stored_under_step:
  assumes "stored_under obi c (s c)"
  shows "stored_under obi c (mirror_body obi y s c)"
proof (cases "map_of obi (key_of y)")
  case None
  with assms show ?thesis by (simp only: mirror_body_cell option.case)
next
  case (Some v)
  show ?thesis
  proof (cases "c \<in> {y, prod.swap y}")
    case True
    then have "c = y \<or> prod.swap c = y" by (metis insertE singletonD swap_swap)
    then have "stored_under obi c v"
      using Some unfolding stored_under_def by blast
    with Some True show ?thesis by (simp only: mirror_body_cell option.case if_True)
  next
    case False
    with Some assms show ?thesis by (simp only: mirror_body_cell option.case if_False)
  qed
qed

lemma stored_or_zero_step:
  assumes "s c = 0 \<or> stored_under obi c (s c)"
  shows "mirror_body obi y s c = 0 \<or> stored_under obi c (mirror_body obi y s c)"
proof (cases "map_of obi (key_of y)")
  case None
  with assms show ?thesis by (simp only: mirror_body_cell option.case)
next
  case (Some v)
  show ?thesis
  proof (cases "c \<in> {y, prod.swap y}")
    case True
    then have "c = y \<or> prod.swap c = y" by (metis insertE singletonD swap_swap)
    then have "stored_under obi c v"
      using Some unfolding stored_under_def by blast
    with Some True show ?thesis by (simp only: mirror_body_cell option.case if_True simp_thms)
  next
    case False
    with Some assms show ?thesis by (simp only: mirror_body_cell option.case if_False)
  qed
qed

lemma mirror_stored_or_zero:
  "mirror_one_body obi n zeros c = 0 \<or> stored_under obi c (mirror_one_body obi n zeros c)"
  unfolding mirror_one_body_fold
  by (rule fold_invariant
      [where Q = "\<lambda>x. True" and P = "\<lambda>s. s c = 0 \<or> stored_under obi c (s c)"])
    (simp_all add: zeros_def stored_or_zero_step)

lemma mirror_written:
  assumes "i < n" "j < n" "map_of obi (key2 i j) = Some v"
  shows "stored_under obi (i, j) (mirror_one_body obi n zeros (i, j))
       \<and> stored_under obi (i, j) (mirror_one_body obi n zeros (j, i))"
  unfolding mirror_one_body_fold
proof (rule fold_establish
    [where x = "(i, j)"
       and Q = "\<lambda>s. stored_under obi (i, j) (s (i, j)) \<and> stored_under obi (i, j) (s (j, i))"])
  show "(i, j) \<in> set (List.product [0..<n] [0..<n])"
    using assms by simp
next
  fix s :: tensor2
  have key: "map_of obi (key_of (i, j)) = Some v"
    using assms(3) by (simp add: key_of_def)
  have "mirror_body obi (i, j) s (i, j) = v" "mirror_body obi (i, j) s (j, i) = v"
    using key by (simp_all only: mirror_body_cell option.case swap_simp insertI1 insertI2 if_True)
  moreover have "stored_under obi (i, j) v"
    using key by (simp only: stored_under_def) blast
  ultimately show "stored_under obi (i, j) (mirror_body obi (i, j) s (i, j))
      \<and> stored_under obi (i, j) (mirror_body obi (i, j) s (j, i))"
    by (simp only:)
next
  fix y :: "nat \<times> nat" and s :: tensor2
  assume a: "stored_under obi (i, j) (s (i, j)) \<and> stored_under obi (i, j) (s (j, i))"
  then have "stored_under obi (j, i) (s (j, i))"
    using stored_under_swap [of obi "(i, j)" "s (j, i)"] by (simp only: swap_simp)
  then have "stored_under obi (j, i) (mirror_body obi y s (j, i))"
    by (rule stored_under_step)
  then have "stored_under obi (i, j) (mirror_body obi y s (j, i))"
    using stored_under_swap [of obi "(i, j)" "mirror_body obi y s (j, i)"]
    by (simp only: swap_simp)
  with a show "stored_under obi (i, j) (mirror_body obi y s (i, j))
      \<and> stored_under obi (i, j) (mirror_body obi y s (j, i))"
    by (simp only: stored_under_step simp_thms)
qed

lemma coefficients_restricted:
  "coefficients False obi tbi =
     (mirror_one_body obi (length obi) zeros,
      restricted_calculation (length obi) (permutation_symmetry tbi (length obi) zeros))"
  by (simp add: coefficients_def Let_def)

lemma odd_key2: "odd (fst (key2 p q)) \<longleftrightarrow> even p" "odd (snd (key2 p q)) \<longleftrightarrow> even q"
  by (simp_all add: key2_def)

text \<open>
  C10: in restricted mode every one-body entry is zero or the value stored under its
  own key or under the mirrored key, and a stored key \<open>(i+1, j+1)\<close> within the
  dimension fills both \<open>[i, j]\<close> and \<open>[j, i]\<close> with such a value; nothing else is
  written, in particular no spin-down copy. So when all one-body keys have odd 1-based
  indices, every entry \<open>[i, j]\<close> with \<open>i\<close> or \<open>j\<close> odd is zero, before and after
  truncation.
\<close>

theorem restricted_one_body_mirror_only:
  assumes keys: "\<forall>k \<in> fst ` set obi. odd (fst k) \<and> odd (snd k)"
    and co: "coefficients False obi tbi = (one, two)"
    and st: "one_body_int st = obi" "two_body_int st = tbi"
  shows "(one (i, j) = 0 \<or> map_of obi (int i + 1, int j + 1) = Some (one (i, j))
            \<or> map_of obi (int j + 1, int i + 1) = Some (one (i, j)))
       \<and> (i < length obi \<and> j < length obi \<and> map_of obi (int i + 1, int j + 1) = Some v \<longrightarrow>
            (map_of obi (int i + 1, int j + 1) = Some (one (i, j))
               \<or> map_of obi (int j + 1, int i + 1) = Some (one (i, j)))
          \<and> (map_of obi (int i + 1, int j + 1) = Some (one (j, i))
               \<or> map_of obi (int j + 1, int i + 1) = Some (one (j, i))))
       \<and> (odd i \<or> odd j \<longrightarrow>
            one (i, j) = 0 \<and> one_body_coefficients (hamiltonian_of tol False st) (i, j) = 0)"
proof -
  have one: "one = mirror_one_body obi (length obi) zeros"
    using co by (simp add: coefficients_restricted)
  have a: "one (i, j) = 0 \<or> map_of obi (int i + 1, int j + 1) = Some (one (i, j))
            \<or> map_of obi (int j + 1, int i + 1) = Some (one (i, j))"
    unfolding one using mirror_stored_or_zero [of obi "length obi" "(i, j)"]
    by (simp add: key2_def key_of_def stored_under_def)
  have b: "i < length obi \<and> j < length obi \<and> map_of obi (int i + 1, int j + 1) = Some v \<longrightarrow>
            (map_of obi (int i + 1, int j + 1) = Some (one (i, j))
               \<or> map_of obi (int j + 1, int i + 1) = Some (one (i, j)))
          \<and> (map_of obi (int i + 1, int j + 1) = Some (one (j, i))
               \<or> map_of obi (int j + 1, int i + 1) = Some (one (j, i)))"
    unfolding one using mirror_written [of i "length obi" j obi v]
    by (simp add: key2_def key_of_def stored_under_def)
  have c: "one (i, j) = 0" if odd: "odd i \<or> odd j"
  proof (rule ccontr)
    assume "one (i, j) \<noteq> 0"
    with a have "(int i + 1, int j + 1) \<in> fst ` set obi \<or> (int j + 1, int i + 1) \<in> fst ` set obi"
      by (auto dest!: map_of_SomeD intro: rev_image_eqI)
    with keys have "odd (int i + 1) \<and> odd (int j + 1)"
      by fastforce
    with odd show False by simp
  qed
  have d: "one_body_coefficients (hamiltonian_of tol False st) (i, j) = zero_below tol one (i, j)"
    using co st by (simp add: hamiltonian_of_def)
  from a b c d show ?thesis
    by (simp add: zero_below_def)
qed

theorem restricted_one_body_mirror_only_witness:
  "fst (coefficients False odd_keys_one_body []) (1, 0) = 0
   \<and> one_body_coefficients (hamiltonian_of (1/100)  False
        \<lparr>E_core = 0, spinor = [], one_body_int = odd_keys_one_body, two_body_int = []\<rparr>) (1, 0) = 0
   \<and> (map_of odd_keys_one_body (1, 3) = Some (fst (coefficients False odd_keys_one_body []) (2, 0))
        \<or> map_of odd_keys_one_body (3, 1) = Some (fst (coefficients False odd_keys_one_body []) (2, 0)))"
proof -
  have keys: "\<forall>k \<in> fst ` set odd_keys_one_body. odd (fst k) \<and> odd (snd k)"
    by (simp add: odd_keys_one_body_def)
  have co: "coefficients False odd_keys_one_body []
      = (fst (coefficients False odd_keys_one_body []), snd (coefficients False odd_keys_one_body []))"
    by simp
  have st: "one_body_int \<lparr>E_core = 0, spinor = [], one_body_int = odd_keys_one_body, two_body_int = []\<rparr>
      = odd_keys_one_body"
    "two_body_int \<lparr>E_core = 0, spinor = [], one_body_int = odd_keys_one_body, two_body_int = []\<rparr> = []"
    by simp_all
  have "map_of odd_keys_one_body (int 0 + 1, int 2 + 1) = Some (1/4)" "0 < length odd_keys_one_body"
    "2 < length odd_keys_one_body"
    by (simp_all add: odd_keys_one_body_def)
  then show ?thesis
    using restricted_one_body_mirror_only [OF keys co st, of 1 0 "1/4" "1/100"]
      restricted_one_body_mirror_only [OF keys co st, of 0 2 "1/4" "1/100"]
    by simp
qed

section \<open>The restricted branch: two-body integrals\<close>

lemma written_cells_sym8: "written_cells p q r s = cells8 (p, q, r, s)"
  by (simp only: written_cells_def cells8_def sym8_def physicist_def spin_up_def prod.case list.map)

lemma sym8_refl: "x \<in> set (sym8 x)"
  by (cases x) (simp only: sym8_def prod.case list.set insertI1)

lemma sym8_closed:
  assumes "y \<in> set (sym8 x)"
  shows "set (sym8 y) = set (sym8 x)"
proof -
  obtain p q r s where x: "x = (p, q, r, s)" by (cases x)
  from assms have "y = (p, q, r, s) \<or> y = (q, p, r, s) \<or> y = (p, q, s, r) \<or> y = (q, p, s, r)
      \<or> y = (r, s, p, q) \<or> y = (s, r, p, q) \<or> y = (r, s, q, p) \<or> y = (s, r, q, p)"
    unfolding x sym8_def by (simp only: prod.case list.set insert_iff empty_iff simp_thms)
  then show ?thesis
    unfolding x
    by (elim disjE; simp only: sym8_def prod.case list.set) (simp_all only: insert_commute)
qed

lemma sym8_same_orbit:
  assumes "y \<in> set (sym8 x)"
  shows "y \<in> set (sym8 k) \<longleftrightarrow> x \<in> set (sym8 k)"
  using assms sym8_closed sym8_refl by blast

lemma cell_inj:
  assumes "spin_up (physicist x) = spin_up (physicist y)"
  shows "x = y"
proof -
  obtain p q r s where x: "x = (p, q, r, s)" by (cases x)
  obtain p' q' r' s' where y: "y = (p', q', r', s')" by (cases y)
  from assms show ?thesis
    unfolding x y physicist_def spin_up_def by simp
qed

lemma cells8_member: "spin_up (physicist y) \<in> set (cells8 k) \<longleftrightarrow> y \<in> set (sym8 k)"
proof
  assume "spin_up (physicist y) \<in> set (cells8 k)"
  then obtain z where z: "z \<in> set (sym8 k)" "spin_up (physicist y) = spin_up (physicist z)"
    unfolding cells8_def by (simp only: set_map) blast
  from z(2) have "y = z" by (rule cell_inj)
  with z(1) show "y \<in> set (sym8 k)" by (simp only:)
next
  assume "y \<in> set (sym8 k)"
  then show "spin_up (physicist y) \<in> set (cells8 k)"
    unfolding cells8_def by (simp only: set_map) blast
qed

lemma symmetry_body_fold:
  "symmetry_body tbi p q r s two =
     (case map_of tbi (key4 (2 * p) (2 * q) (2 * r) (2 * s)) of
        None \<Rightarrow> two
      | Some v \<Rightarrow> fold (\<lambda>k t. t(k := v / 2)) (written_cells p q r s) two)"
  unfolding symmetry_body_def written_cells_def
  by (simp only: fold.simps comp_def id_def)

lemma symmetry_body_cell:
  "symmetry_body tbi p q r s two c =
     (case map_of tbi (key4 (2 * p) (2 * q) (2 * r) (2 * s)) of
        None \<Rightarrow> two c
      | Some v \<Rightarrow> if c \<in> set (written_cells p q r s) then v / 2 else two c)"
  unfolding symmetry_body_fold by (simp add: fold_same_value split: option.splits)

lemma symmetric8_step:
  assumes "symmetric8 t"
  shows "symmetric8 (symmetry_body tbi p q r s t)"
proof (cases "map_of tbi (key4 (2 * p) (2 * q) (2 * r) (2 * s))")
  case None
  with assms show ?thesis by (simp add: symmetry_body_def)
next
  case (Some v)
  have cell: "symmetry_body tbi p q r s t c
      = (if c \<in> set (cells8 (p, q, r, s)) then v / 2 else t c)" for c
    by (simp only: symmetry_body_cell Some option.case written_cells_sym8)
  show ?thesis
    unfolding symmetric8_def
  proof (intro allI ballI)
    fix x y :: "nat \<times> nat \<times> nat \<times> nat"
    assume y: "y \<in> set (sym8 x)"
    have same: "spin_up (physicist y) \<in> set (cells8 (p, q, r, s))
        \<longleftrightarrow> spin_up (physicist x) \<in> set (cells8 (p, q, r, s))"
      by (simp only: cells8_member sym8_same_orbit [OF y])
    have old: "t (spin_up (physicist y)) = t (spin_up (physicist x))"
      using assms y unfolding symmetric8_def by blast
    show "symmetry_body tbi p q r s t (spin_up (physicist y))
        = symmetry_body tbi p q r s t (spin_up (physicist x))"
      by (simp only: cell same old)
  qed
qed

lemma permutation_symmetry_fold:
  "permutation_symmetry tbi n =
     fold (\<lambda>(p, q, r, s). symmetry_body tbi p q r s) (range4 (n div 2))"
  unfolding permutation_symmetry_def by (rule fold_range4)

lemma restricted_calculation_fold:
  "restricted_calculation n = fold (\<lambda>(p, q, r, s). restricted_body p q r s) (range4 (n div 2))"
  unfolding restricted_calculation_def by (rule fold_range4)

lemma symmetric8_permutation_symmetry: "symmetric8 (permutation_symmetry tbi n zeros)"
  unfolding permutation_symmetry_fold
proof (rule fold_invariant [where Q = "\<lambda>x. True" and P = symmetric8])
  show "symmetric8 zeros" by (simp add: symmetric8_def zeros_def)
next
  fix x :: "nat \<times> nat \<times> nat \<times> nat" and t :: tensor4
  assume "symmetric8 t"
  then show "symmetric8 ((case x of (p, q, r, s) \<Rightarrow> symmetry_body tbi p q r s) t)"
    by (cases x) (simp only: prod.case symmetric8_step)
qed simp

lemma sector_iff:
  "c \<in> {(2 * p + 1, 2 * q, 2 * r, 2 * s + 1), (2 * p, 2 * q + 1, 2 * r + 1, 2 * s),
         (2 * p + 1, 2 * q + 1, 2 * r + 1, 2 * s + 1)}
     \<longleftrightarrow> spin_sector c \<and> half4 c = (p, q, r, s)"
proof -
  obtain a b c' d where c: "c = (a, b, c', d)" by (cases c)
  have o: "odd n \<and> n div 2 = k \<longleftrightarrow> n = 2 * k + 1" and e: "even n \<and> n div 2 = k \<longleftrightarrow> n = 2 * k"
    for n k :: nat
    by presburger+
  have "spin_sector c \<and> half4 c = (p, q, r, s) \<longleftrightarrow>
      ((odd a \<and> a div 2 = p) \<and> (even b \<and> b div 2 = q) \<and> (even c' \<and> c' div 2 = r) \<and> (odd d \<and> d div 2 = s))
    \<or> ((even a \<and> a div 2 = p) \<and> (odd b \<and> b div 2 = q) \<and> (odd c' \<and> c' div 2 = r) \<and> (even d \<and> d div 2 = s))
    \<or> ((odd a \<and> a div 2 = p) \<and> (odd b \<and> b div 2 = q) \<and> (odd c' \<and> c' div 2 = r) \<and> (odd d \<and> d div 2 = s))"
    unfolding c spin_sector_def half4_def by (simp only: prod.case prod.inject) blast
  also have "\<dots> \<longleftrightarrow> (a = 2 * p + 1 \<and> b = 2 * q \<and> c' = 2 * r \<and> d = 2 * s + 1)
    \<or> (a = 2 * p \<and> b = 2 * q + 1 \<and> c' = 2 * r + 1 \<and> d = 2 * s)
    \<or> (a = 2 * p + 1 \<and> b = 2 * q + 1 \<and> c' = 2 * r + 1 \<and> d = 2 * s + 1)"
    by (simp only: o e)
  also have "\<dots> \<longleftrightarrow> c \<in> {(2 * p + 1, 2 * q, 2 * r, 2 * s + 1), (2 * p, 2 * q + 1, 2 * r + 1, 2 * s),
         (2 * p + 1, 2 * q + 1, 2 * r + 1, 2 * s + 1)}"
    unfolding c by (simp only: insert_iff empty_iff prod.inject simp_thms)
  finally show ?thesis by (simp only:)
qed

lemma not_sector_spin_up: "\<not> spin_sector (spin_up x)"
  by (cases x) (simp add: spin_sector_def spin_up_def)

lemma restricted_body_cell:
  "restricted_body p q r s two c =
     (if spin_sector c \<and> half4 c = (p, q, r, s) then two (spin_up (p, q, r, s)) else two c)"
proof -
  let ?e = "(2 * p, 2 * q, 2 * r, 2 * s)"
  let ?c1 = "(2 * p + 1, 2 * q, 2 * r, 2 * s + 1)"
  let ?c2 = "(2 * p, 2 * q + 1, 2 * r + 1, 2 * s)"
  let ?c3 = "(2 * p + 1, 2 * q + 1, 2 * r + 1, 2 * s + 1)"
  have ne: "?e \<noteq> ?c1" "?e \<noteq> ?c2" by simp_all
  have two1: "(two(?c1 := two ?e)) ?e = two ?e"
    using ne(1) by (simp only: fun_upd_apply if_False)
  have two2: "(two(?c1 := two ?e, ?c2 := two ?e)) ?e = two ?e"
    using ne by (simp only: fun_upd_apply if_False)
  have "restricted_body p q r s two = two(?c1 := two ?e, ?c2 := two ?e, ?c3 := two ?e)"
    unfolding restricted_body_def Let_def by (simp only: two1 two2)
  also have "\<dots> = fold (\<lambda>k t. t(k := two ?e)) [?c1, ?c2, ?c3] two"
    by (simp only: fold.simps comp_def id_def)
  finally have "restricted_body p q r s two c = (if c \<in> set [?c1, ?c2, ?c3] then two ?e else two c)"
    by (simp only: fold_same_value)
  also have "set [?c1, ?c2, ?c3] = {?c1, ?c2, ?c3}" by (simp only: list.set)
  finally show ?thesis
    by (simp only: sector_iff spin_up_def prod.case)
qed

lemma restricted_fold_cell:
  "fold (\<lambda>(p, q, r, s). restricted_body p q r s) xs t c =
     (if spin_sector c \<and> half4 c \<in> set xs then t (spin_up (half4 c)) else t c)"
proof (induction xs arbitrary: t)
  case Nil
  show ?case by simp
next
  case (Cons x xs)
  obtain p q r s where x: "x = (p, q, r, s)" by (cases x)
  have keep: "restricted_body p q r s t (spin_up z) = t (spin_up z)" for z
    by (simp only: restricted_body_cell not_sector_spin_up simp_thms if_False)
  have "fold (\<lambda>(p, q, r, s). restricted_body p q r s) (x # xs) t c
      = fold (\<lambda>(p, q, r, s). restricted_body p q r s) xs (restricted_body p q r s t) c"
    by (simp add: x)
  also have "\<dots> = (if spin_sector c \<and> half4 c \<in> set xs
      then t (spin_up (half4 c)) else restricted_body p q r s t c)"
    by (simp only: Cons.IH keep)
  also have "\<dots> = (if spin_sector c \<and> half4 c \<in> set (x # xs) then t (spin_up (half4 c)) else t c)"
    by (cases "half4 c = x") (auto simp: restricted_body_cell x)
  finally show ?case .
qed

lemma restricted_calculation_cell:
  "restricted_calculation n t c =
     (if spin_sector c \<and> half4 c \<in> set (range4 (n div 2)) then t (spin_up (half4 c)) else t c)"
  by (simp only: restricted_calculation_fold restricted_fold_cell)

lemma up_key_key4: "key4 (2 * p) (2 * q) (2 * r) (2 * s) = up_key (p, q, r, s)"
  by (simp add: key4_def up_key_def)

lemma pairwise_equalI:
  assumes "\<And>c. c \<in> set cs \<Longrightarrow> t c = a"
  shows "pairwise_equal t cs"
  unfolding pairwise_equal_def
proof (intro ballI)
  fix c c'
  assume "c \<in> set cs" "c' \<in> set cs"
  then have "t c = a" "t c' = a" by (simp_all only: assms)
  then show "t c = t c'" by (simp only:)
qed

lemma pairwise_equal_zero_below:
  assumes "pairwise_equal t cs"
  shows "pairwise_equal (zero_below tol t) cs"
  unfolding pairwise_equal_def
proof (intro ballI)
  fix c c'
  assume "c \<in> set cs" "c' \<in> set cs"
  with assms have "t c = t c'"
    unfolding pairwise_equal_def by blast
  then show "zero_below tol t c = zero_below tol t c'"
    unfolding zero_below_def by (simp only:)
qed

lemma restricted_even_block:
  "restricted_calculation n t (spin_up y) = t (spin_up y)"
  by (simp only: restricted_calculation_cell not_sector_spin_up simp_thms if_False)

lemma restricted_sector_block:
  assumes "x \<in> set (range4 (n div 2))" "spin_sector c" "half4 c = x"
  shows "restricted_calculation n t c = t (spin_up x)"
  using assms by (simp only: restricted_calculation_cell simp_thms if_True)

lemma sector_cells_value:
  assumes "p < n div 2" "q < n div 2" "r < n div 2" "s < n div 2"
    and c: "c \<in> set (sector_cells p q r s)"
  shows "restricted_calculation n t c = t (spin_up (p, q, r, s))"
proof -
  have x: "(p, q, r, s) \<in> set (range4 (n div 2))"
    using assms(1-4) by (simp add: set_range4)
  from c have "c \<in> {(2 * p + 1, 2 * q, 2 * r, 2 * s + 1), (2 * p, 2 * q + 1, 2 * r + 1, 2 * s),
         (2 * p + 1, 2 * q + 1, 2 * r + 1, 2 * s + 1)} \<or> c = spin_up (p, q, r, s)"
    unfolding sector_cells_def spin_up_def
    by (simp only: list.set insert_iff empty_iff prod.case) blast
  then show ?thesis
  proof
    assume "c \<in> {(2 * p + 1, 2 * q, 2 * r, 2 * s + 1), (2 * p, 2 * q + 1, 2 * r + 1, 2 * s),
         (2 * p + 1, 2 * q + 1, 2 * r + 1, 2 * s + 1)}"
    then have "spin_sector c \<and> half4 c = (p, q, r, s)" by (simp only: sector_iff)
    then show ?thesis using x by (simp only: restricted_sector_block)
  next
    assume "c = spin_up (p, q, r, s)"
    then show ?thesis by (simp only: restricted_even_block)
  qed
qed

lemma written_cells_value:
  assumes c: "c \<in> set (written_cells p q r s)"
  shows "restricted_calculation n (permutation_symmetry tbi n zeros) c
      = permutation_symmetry tbi n zeros (spin_up (physicist (p, q, r, s)))"
proof -
  from c obtain y where y: "y \<in> set (sym8 (p, q, r, s))" "c = spin_up (physicist y)"
    unfolding written_cells_sym8 cells8_def by (simp only: set_map) blast
  have "permutation_symmetry tbi n zeros (spin_up (physicist y))
      = permutation_symmetry tbi n zeros (spin_up (physicist (p, q, r, s)))"
    using symmetric8_permutation_symmetry [of tbi n] y(1) unfolding symmetric8_def by blast
  then show ?thesis
    by (simp only: y(2) restricted_even_block)
qed

text \<open>
  C3: after the restricted-mode expansion, whatever the two-body map holds (several
  keys of one symmetry class, with different values, included), for all spatial indices
  \<open>p, q, r, s\<close> below \<open>n // 2\<close> the eight entries that step 2 writes for \<open>(p, q, r, s)\<close>
  are pairwise equal, and so are the four spin-sector entries of step 3; this holds
  before and after truncation.
\<close>

theorem restricted_expansion_symmetry:
  assumes co: "coefficients False obi tbi = (one, two)"
    and st: "one_body_int st = obi" "two_body_int st = tbi"
    and range: "p < length obi div 2" "q < length obi div 2" "r < length obi div 2"
      "s < length obi div 2"
  shows "pairwise_equal two (written_cells p q r s)
       \<and> pairwise_equal two (sector_cells p q r s)
       \<and> pairwise_equal (two_body_coefficients (hamiltonian_of tol False st)) (written_cells p q r s)
       \<and> pairwise_equal (two_body_coefficients (hamiltonian_of tol False st)) (sector_cells p q r s)"
proof -
  have two: "two = restricted_calculation (length obi) (permutation_symmetry tbi (length obi) zeros)"
    using co by (simp add: coefficients_restricted)
  have a: "pairwise_equal two (written_cells p q r s)"
    unfolding two by (rule pairwise_equalI) (rule written_cells_value)
  have b: "pairwise_equal two (sector_cells p q r s)"
    unfolding two by (rule pairwise_equalI) (rule sector_cells_value [OF range])
  have "two_body_coefficients (hamiltonian_of tol False st) = zero_below tol two"
    using co st by (simp add: hamiltonian_of_def)
  with a b show ?thesis
    by (simp only: pairwise_equal_zero_below simp_thms)
qed

theorem restricted_expansion_symmetry_witness:
  "snd (coefficients False odd_keys_one_body conflicting_two_body) (0, 2, 2, 0)
     = snd (coefficients False odd_keys_one_body conflicting_two_body) (2, 0, 0, 2)
   \<and> snd (coefficients False odd_keys_one_body conflicting_two_body) (1, 0, 2, 3)
     = snd (coefficients False odd_keys_one_body conflicting_two_body) (0, 0, 2, 2)
   \<and> two_body_coefficients (hamiltonian_of (1/100) False
        \<lparr>E_core = 0, spinor = [], one_body_int = odd_keys_one_body,
         two_body_int = conflicting_two_body\<rparr>) (0, 2, 2, 0)
     = two_body_coefficients (hamiltonian_of (1/100) False
        \<lparr>E_core = 0, spinor = [], one_body_int = odd_keys_one_body,
         two_body_int = conflicting_two_body\<rparr>) (2, 0, 0, 2)"
proof -
  let ?st = "\<lparr>E_core = 0, spinor = [], one_body_int = odd_keys_one_body,
         two_body_int = conflicting_two_body\<rparr>"
  let ?two = "snd (coefficients False odd_keys_one_body conflicting_two_body)"
  have co: "coefficients False odd_keys_one_body conflicting_two_body
      = (fst (coefficients False odd_keys_one_body conflicting_two_body), ?two)"
    by simp
  have st: "one_body_int ?st = odd_keys_one_body" "two_body_int ?st = conflicting_two_body"
    by simp_all
  have r0: "(0::nat) < length odd_keys_one_body div 2"
    and r1: "(1::nat) < length odd_keys_one_body div 2"
    by (simp_all add: odd_keys_one_body_def)
  have w: "(0, 2, 2, 0) \<in> set (written_cells 0 0 1 1)" "(2, 0, 0, 2) \<in> set (written_cells 0 0 1 1)"
    by (simp_all add: written_cells_def)
  have x: "(1, 0, 2, 3) \<in> set (sector_cells 0 0 1 1)" "(0, 0, 2, 2) \<in> set (sector_cells 0 0 1 1)"
    by (simp_all add: sector_cells_def)
  have "pairwise_equal ?two (written_cells 0 0 1 1)"
    "pairwise_equal ?two (sector_cells 0 0 1 1)"
    "pairwise_equal (two_body_coefficients (hamiltonian_of (1/100) False ?st)) (written_cells 0 0 1 1)"
    using restricted_expansion_symmetry [OF co st r0 r0 r1 r1, of "1/100"] by blast+
  with w x show ?thesis
    unfolding pairwise_equal_def by blast
qed

lemma sym8_orbit_back:
  assumes "z \<in> set (sym8 k)" "z \<in> set (sym8 y)"
  shows "y \<in> set (sym8 k)"
  using assms sym8_closed sym8_refl by blast

lemma symmetry_step_value:
  assumes single: "\<forall>y \<in> set (sym8 k). map_of tbi (up_key y) = None \<or> map_of tbi (up_key y) = Some v"
    and old: "\<forall>c \<in> set (cells8 k). t c = v / 2"
  shows "\<forall>c \<in> set (cells8 k). symmetry_body tbi p q r s t c = v / 2"
proof
  fix c
  assume c: "c \<in> set (cells8 k)"
  then obtain z where z: "z \<in> set (sym8 k)" "c = spin_up (physicist z)"
    unfolding cells8_def by (simp only: set_map) blast
  show "symmetry_body tbi p q r s t c = v / 2"
  proof (cases "map_of tbi (up_key (p, q, r, s))")
    case None
    then show ?thesis using old c
      by (simp only: symmetry_body_cell up_key_key4 option.case)
  next
    case (Some w)
    show ?thesis
    proof (cases "c \<in> set (cells8 (p, q, r, s))")
      case True
      then have "z \<in> set (sym8 (p, q, r, s))"
        by (simp only: z(2) cells8_member)
      with z(1) have "(p, q, r, s) \<in> set (sym8 k)" by (rule sym8_orbit_back)
      with single Some have "w = v" by auto
      with Some True show ?thesis
        by (simp only: symmetry_body_cell up_key_key4 option.case written_cells_sym8 if_True)
    next
      case False
      with Some old c show ?thesis
        by (simp only: symmetry_body_cell up_key_key4 option.case written_cells_sym8 if_False)
    qed
  qed
qed

lemma permutation_symmetry_value:
  assumes k: "(p, q, r, s) \<in> set (range4 (n div 2))"
    and stored: "map_of tbi (up_key (p, q, r, s)) = Some v"
    and single: "\<forall>y \<in> set (sym8 (p, q, r, s)).
        map_of tbi (up_key y) = None \<or> map_of tbi (up_key y) = Some v"
  shows "\<forall>c \<in> set (cells8 (p, q, r, s)). permutation_symmetry tbi n t c = v / 2"
  unfolding permutation_symmetry_fold
proof (rule fold_establish
    [where x = "(p, q, r, s)" and Q = "\<lambda>t. \<forall>c \<in> set (cells8 (p, q, r, s)). t c = v / 2"])
  show "(p, q, r, s) \<in> set (range4 (n div 2))" by (rule k)
next
  fix t :: tensor4
  show "\<forall>c \<in> set (cells8 (p, q, r, s)).
      (case (p, q, r, s) of (p, q, r, s) \<Rightarrow> symmetry_body tbi p q r s) t c = v / 2"
  proof
    fix c
    assume "c \<in> set (cells8 (p, q, r, s))"
    with stored show "(case (p, q, r, s) of (p, q, r, s) \<Rightarrow> symmetry_body tbi p q r s) t c = v / 2"
      by (simp only: prod.case symmetry_body_cell up_key_key4 option.case written_cells_sym8 if_True)
  qed
next
  fix y :: "nat \<times> nat \<times> nat \<times> nat" and t :: tensor4
  assume old: "\<forall>c \<in> set (cells8 (p, q, r, s)). t c = v / 2"
  obtain p' q' r' s' where y: "y = (p', q', r', s')" by (cases y)
  show "\<forall>c \<in> set (cells8 (p, q, r, s)).
      (case y of (p, q, r, s) \<Rightarrow> symmetry_body tbi p q r s) t c = v / 2"
    unfolding y prod.case using single old by (rule symmetry_step_value)
qed

lemma symmetry_body_stored:
  assumes "map_of tbi (up_key (p, q, r, s)) = Some v"
  shows "symmetry_body tbi p q r s t = (\<lambda>c. if c \<in> set (written_cells p q r s) then v / 2 else t c)"
  by (rule ext) (simp only: symmetry_body_cell up_key_key4 assms option.case)

text \<open>
  C2: in restricted mode, for a stored key \<open>(2p+1, 2q+1, 2r+1, 2s+1)\<close> with spatial
  indices below \<open>n // 2\<close>, the eight entries that the loop body assigns are the
  specification's: the permutation \<open>(p, q, r, s) \<rightarrow> (p, r, s, q)\<close> applied to the eight
  tuples of the symmetry group, at even positions; the body writes half the stored
  value into exactly these entries and leaves every other entry as it was. When the
  map holds one representative of the class (or several with one value), these
  entries hold half the stored value once the expansion is complete. The second loop
  then copies the even-even block into the three other spin sectors,
  \<open>[2a+1, 2b, 2c, 2d+1] = [2a+1, 2b+1, 2c+1, 2d+1] = [2a, 2b+1, 2c+1, 2d] = [2a, 2b, 2c, 2d]\<close>
  for all spatial indices, without changing the even-even block.
\<close>

theorem restricted_symmetry_expansion:
  assumes co: "coefficients False obi tbi = (one, two)"
    and range: "p < length obi div 2" "q < length obi div 2" "r < length obi div 2"
      "s < length obi div 2"
    and stored: "map_of tbi (2 * int p + 1, 2 * int q + 1, 2 * int r + 1, 2 * int s + 1) = Some v"
  shows "written_cells p q r s = map (\<lambda>y. spin_up (physicist y)) (sym8 (p, q, r, s))
       \<and> symmetry_body tbi p q r s t
           = (\<lambda>c. if c \<in> set (written_cells p q r s) then v / 2 else t c)
       \<and> permutation_symmetry tbi (length obi)
           = fold (\<lambda>(p, q, r, s). symmetry_body tbi p q r s) (range4 (length obi div 2))
       \<and> (p, q, r, s) \<in> set (range4 (length obi div 2))
       \<and> ((\<forall>y \<in> set (sym8 (p, q, r, s)).
              map_of tbi (up_key y) = None \<or> map_of tbi (up_key y) = Some v) \<longrightarrow>
            (\<forall>c \<in> set (written_cells p q r s). two c = v / 2))
       \<and> (a < length obi div 2 \<and> b < length obi div 2 \<and> c' < length obi div 2
            \<and> d < length obi div 2 \<longrightarrow>
              two (2 * a + 1, 2 * b, 2 * c', 2 * d + 1) = two (2 * a, 2 * b, 2 * c', 2 * d)
            \<and> two (2 * a + 1, 2 * b + 1, 2 * c' + 1, 2 * d + 1) = two (2 * a, 2 * b, 2 * c', 2 * d)
            \<and> two (2 * a, 2 * b + 1, 2 * c' + 1, 2 * d) = two (2 * a, 2 * b, 2 * c', 2 * d))
       \<and> two (2 * a, 2 * b, 2 * c', 2 * d)
           = permutation_symmetry tbi (length obi) zeros (2 * a, 2 * b, 2 * c', 2 * d)"
proof -
  let ?n = "length obi"
  have two: "two = restricted_calculation ?n (permutation_symmetry tbi ?n zeros)"
    using co by (simp add: coefficients_restricted)
  have key: "map_of tbi (up_key (p, q, r, s)) = Some v"
    using stored by (simp add: up_key_def)
  have k: "(p, q, r, s) \<in> set (range4 (?n div 2))"
    using range by (simp add: set_range4)
  have 1: "written_cells p q r s = map (\<lambda>y. spin_up (physicist y)) (sym8 (p, q, r, s))"
    by (simp only: written_cells_sym8 cells8_def)
  have 2: "symmetry_body tbi p q r s t
           = (\<lambda>c. if c \<in> set (written_cells p q r s) then v / 2 else t c)"
    using key by (rule symmetry_body_stored)
  have 3: "(\<forall>y \<in> set (sym8 (p, q, r, s)).
              map_of tbi (up_key y) = None \<or> map_of tbi (up_key y) = Some v) \<longrightarrow>
            (\<forall>c \<in> set (written_cells p q r s). two c = v / 2)"
  proof (intro impI ballI)
    fix c
    assume single: "\<forall>y \<in> set (sym8 (p, q, r, s)).
        map_of tbi (up_key y) = None \<or> map_of tbi (up_key y) = Some v"
    assume c: "c \<in> set (written_cells p q r s)"
    then have "two c = permutation_symmetry tbi ?n zeros (spin_up (physicist (p, q, r, s)))"
      unfolding two by (rule written_cells_value)
    moreover have "spin_up (physicist (p, q, r, s)) \<in> set (cells8 (p, q, r, s))"
      by (simp only: cells8_member sym8_refl)
    ultimately show "two c = v / 2"
      using permutation_symmetry_value [OF k key single, of zeros] by simp
  qed
  have 4: "a < ?n div 2 \<and> b < ?n div 2 \<and> c' < ?n div 2 \<and> d < ?n div 2 \<longrightarrow>
              two (2 * a + 1, 2 * b, 2 * c', 2 * d + 1) = two (2 * a, 2 * b, 2 * c', 2 * d)
            \<and> two (2 * a + 1, 2 * b + 1, 2 * c' + 1, 2 * d + 1) = two (2 * a, 2 * b, 2 * c', 2 * d)
            \<and> two (2 * a, 2 * b + 1, 2 * c' + 1, 2 * d) = two (2 * a, 2 * b, 2 * c', 2 * d)"
  proof
    assume r: "a < ?n div 2 \<and> b < ?n div 2 \<and> c' < ?n div 2 \<and> d < ?n div 2"
    have v: "x \<in> set (sector_cells a b c' d) \<Longrightarrow>
        two x = permutation_symmetry tbi ?n zeros (spin_up (a, b, c', d))" for x
      unfolding two using r by (intro sector_cells_value) simp_all
    have "two (2 * a + 1, 2 * b, 2 * c', 2 * d + 1)
        = permutation_symmetry tbi ?n zeros (spin_up (a, b, c', d))"
      "two (2 * a + 1, 2 * b + 1, 2 * c' + 1, 2 * d + 1)
        = permutation_symmetry tbi ?n zeros (spin_up (a, b, c', d))"
      "two (2 * a, 2 * b + 1, 2 * c' + 1, 2 * d)
        = permutation_symmetry tbi ?n zeros (spin_up (a, b, c', d))"
      "two (2 * a, 2 * b, 2 * c', 2 * d)
        = permutation_symmetry tbi ?n zeros (spin_up (a, b, c', d))"
      by (rule v, simp only: sector_cells_def list.set insertI1 insertI2)+
    then show "two (2 * a + 1, 2 * b, 2 * c', 2 * d + 1) = two (2 * a, 2 * b, 2 * c', 2 * d)
            \<and> two (2 * a + 1, 2 * b + 1, 2 * c' + 1, 2 * d + 1) = two (2 * a, 2 * b, 2 * c', 2 * d)
            \<and> two (2 * a, 2 * b + 1, 2 * c' + 1, 2 * d) = two (2 * a, 2 * b, 2 * c', 2 * d)"
      by (simp only: simp_thms)
  qed
  have 5: "two (2 * a, 2 * b, 2 * c', 2 * d)
           = permutation_symmetry tbi ?n zeros (2 * a, 2 * b, 2 * c', 2 * d)"
    using restricted_even_block [of ?n "permutation_symmetry tbi ?n zeros" "(a, b, c', d)"]
    unfolding two by (simp only: spin_up_def prod.case)
  from 1 2 3 4 5 k permutation_symmetry_fold [of tbi ?n] show ?thesis by (simp only: simp_thms)
qed

theorem restricted_symmetry_expansion_witness:
  "snd (coefficients False odd_keys_one_body single_two_body) (0, 2, 2, 0) = 1/2
   \<and> snd (coefficients False odd_keys_one_body single_two_body) (2, 0, 0, 2) = 1/2
   \<and> snd (coefficients False odd_keys_one_body single_two_body) (1, 2, 2, 1) = 1/2
   \<and> snd (coefficients False odd_keys_one_body single_two_body) (0, 3, 3, 0) = 1/2"
proof -
  have co: "coefficients False odd_keys_one_body single_two_body
      = (fst (coefficients False odd_keys_one_body single_two_body),
         snd (coefficients False odd_keys_one_body single_two_body))"
    by simp
  have r0: "(0::nat) < length odd_keys_one_body div 2"
    and r1: "(1::nat) < length odd_keys_one_body div 2"
    by (simp_all add: odd_keys_one_body_def)
  have stored: "map_of single_two_body (2 * int 0 + 1, 2 * int 0 + 1, 2 * int 1 + 1, 2 * int 1 + 1)
      = Some 1"
    by (simp add: single_two_body_def)
  have single: "\<forall>y \<in> set (sym8 (0::nat, 0::nat, 1::nat, 1::nat)).
      map_of single_two_body (up_key y) = None \<or> map_of single_two_body (up_key y) = Some 1"
    by (simp add: sym8_def up_key_def single_two_body_def)
  note expansion = restricted_symmetry_expansion [OF co r0 r0 r1 r1 stored, of zeros 0 1 1 0]
  from expansion single
  have "\<forall>c \<in> set (written_cells 0 0 1 1).
      snd (coefficients False odd_keys_one_body single_two_body) c = 1 / 2"
    by blast
  then have a: "snd (coefficients False odd_keys_one_body single_two_body) (0, 2, 2, 0) = 1/2"
    "snd (coefficients False odd_keys_one_body single_two_body) (2, 0, 0, 2) = 1/2"
    by (simp_all add: written_cells_def)
  from expansion r0 r1
  have "snd (coefficients False odd_keys_one_body single_two_body) (2 * 0 + 1, 2 * 1, 2 * 1, 2 * 0 + 1)
        = snd (coefficients False odd_keys_one_body single_two_body) (2 * 0, 2 * 1, 2 * 1, 2 * 0)"
    "snd (coefficients False odd_keys_one_body single_two_body) (2 * 0, 2 * 1 + 1, 2 * 1 + 1, 2 * 0)
        = snd (coefficients False odd_keys_one_body single_two_body) (2 * 0, 2 * 1, 2 * 1, 2 * 0)"
    by blast+
  with a show ?thesis by simp
qed

lemma written_cells_bound:
  assumes "c \<in> set (written_cells p q r s)" "p < m" "q < m" "r < m" "s < m"
  shows "case c of (i, j, k, l) \<Rightarrow> i < 2 * m \<and> j < 2 * m \<and> k < 2 * m \<and> l < 2 * m"
proof -
  from assms(1) have "c = (2 * p, 2 * r, 2 * s, 2 * q) \<or> c = (2 * q, 2 * r, 2 * s, 2 * p)
      \<or> c = (2 * p, 2 * s, 2 * r, 2 * q) \<or> c = (2 * q, 2 * s, 2 * r, 2 * p)
      \<or> c = (2 * r, 2 * p, 2 * q, 2 * s) \<or> c = (2 * s, 2 * p, 2 * q, 2 * r)
      \<or> c = (2 * r, 2 * q, 2 * p, 2 * s) \<or> c = (2 * s, 2 * q, 2 * p, 2 * r)"
    unfolding written_cells_def by (simp only: list.set insert_iff empty_iff simp_thms)
  then show ?thesis
    using assms(2-5) by (elim disjE) (simp_all only: prod.case, simp_all)
qed

lemma permutation_symmetry_outside:
  assumes "\<not> inside (2 * (n div 2)) c"
  shows "permutation_symmetry tbi n zeros c = 0"
  unfolding permutation_symmetry_fold
proof (rule fold_invariant
    [where Q = "\<lambda>x. x \<in> set (range4 (n div 2))" and P = "\<lambda>t. t c = 0"])
  show "zeros c = 0" by (simp add: zeros_def)
next
  fix x :: "nat \<times> nat \<times> nat \<times> nat" and t :: tensor4
  assume x: "x \<in> set (range4 (n div 2))" and t: "t c = 0"
  obtain p q r s where xe: "x = (p, q, r, s)" by (cases x)
  from x have "p < n div 2" "q < n div 2" "r < n div 2" "s < n div 2"
    unfolding xe by (simp_all add: set_range4)
  then have "c \<notin> set (written_cells p q r s)"
    using assms written_cells_bound [of c p q r s "n div 2"] unfolding inside_def by blast
  then show "(case x of (p, q, r, s) \<Rightarrow> symmetry_body tbi p q r s) t c = 0"
    unfolding xe using t by (simp add: symmetry_body_cell split: option.splits)
qed

lemma half4_range:
  "half4 c \<in> set (range4 m) \<longleftrightarrow> inside (2 * m) c"
proof -
  obtain i j k l where c: "c = (i, j, k, l)" by (cases c)
  have "x div 2 < m \<longleftrightarrow> x < 2 * m" for x :: nat by presburger
  then show ?thesis
    unfolding c by (simp add: half4_def set_range4 inside_def)
qed

lemma restricted_outside:
  assumes "\<not> inside (2 * (n div 2)) c"
  shows "restricted_calculation n (permutation_symmetry tbi n zeros) c = 0"
  using assms
  by (simp only: restricted_calculation_cell half4_range simp_thms if_False
      permutation_symmetry_outside)

text \<open>
  C6, as the code has it: in restricted mode an odd dimension \<open>n\<close> is not rejected.
  Whenever the dump parses, the pipeline raises nothing and returns a Hamiltonian of
  dimension \<open>n\<close>; the spatial loops run over \<open>range(n // 2)\<close>, so every two-body entry
  with an index equal to \<open>n - 1\<close> is left zero.
\<close>

theorem restricted_odd_dimension:
  assumes parse: "get_integrals_FCIDUMP py_float py_int fs name = Inr st"
    and odd: "odd (length (one_body_int st))"
    and last: "i = length (one_body_int st) - 1 \<or> j = length (one_body_int st) - 1
        \<or> k = length (one_body_int st) - 1 \<or> l = length (one_body_int st) - 1"
  shows "get_molecular_hamiltonian tol py_float py_int fs name False
           = Inr (hamiltonian_of tol False st)
       \<and> n_qubits (hamiltonian_of tol False st) = length (one_body_int st)
       \<and> two_body_coefficients (hamiltonian_of tol False st) (i, j, k, l) = 0"
proof -
  let ?n = "length (one_body_int st)"
  have "?n - 1 = 2 * (?n div 2)"
    using odd by presburger
  with last have "\<not> inside (2 * (?n div 2)) (i, j, k, l)"
    unfolding inside_def by auto
  then have "snd (coefficients False (one_body_int st) (two_body_int st)) (i, j, k, l) = 0"
    by (simp add: coefficients_restricted restricted_outside)
  then show ?thesis
    using parse
    by (simp add: get_molecular_hamiltonian_def bind_def hamiltonian_of_def zero_below_def
        case_prod_unfold)
qed

lemma odd_dump_parsed:
  "get_integrals_FCIDUMP demo_float demo_int dump_files ''odd'' =
     Inr \<lparr>E_core = 1/4, spinor = [],
          one_body_int = [((1, 1), 1/2), ((1, 3), 1/4), ((3, 3), 1/2)],
          two_body_int = [((1, 1, 1, 1), 1/2)]\<rparr>"
  by (simp add: get_integrals_FCIDUMP_def dump_files_def odd_dump_def split_def is_space_def
      read_row_def bind_def item_def convert_def demo_float_def demo_int_def store_record_def
      no_integrals_def)

theorem restricted_odd_dimension_witness:
  "map_sum id n_qubits (get_molecular_hamiltonian (1/100) demo_float demo_int dump_files ''odd'' False)
     = Inr 3
   \<and> map_sum id (\<lambda>h. two_body_coefficients h (2, 0, 0, 0))
       (get_molecular_hamiltonian (1/100) demo_float demo_int dump_files ''odd'' False) = Inr 0"
proof -
  have "odd (length (one_body_int \<lparr>E_core = 1/4, spinor = [],
          one_body_int = [((1, 1), 1/2), ((1, 3), 1/4), ((3, 3), 1/2)],
          two_body_int = [((1::int, 1::int, 1::int, 1::int), 1/2 :: real)]\<rparr>))"
    by simp
  from restricted_odd_dimension [OF odd_dump_parsed this, of 2 0 0 0 "1/100"]
  show ?thesis by simp
qed

text \<open>
  A dump with three one-body records, read in restricted mode: a Hamiltonian of
  dimension 3 is returned, not an error.
\<close>

theorem restricted_odd_dimension_counterexample:
  "map_sum id n_qubits (get_molecular_hamiltonian (1/100) demo_float demo_int dump_files ''odd'' False)
     = Inr 3"
  by (simp add: get_molecular_hamiltonian_def odd_dump_parsed bind_def hamiltonian_of_def
      split: prod.splits)

section \<open>The dimension of the tensors\<close>

lemma full_dump_parsed:
  "get_integrals_FCIDUMP demo_float demo_int dump_files ''full'' =
     Inr \<lparr>E_core = 1/2, spinor = [(1, 1/2), (2, 1/4)],
          one_body_int = [((1, 1), 1/2), ((1, 2), 1/4), ((2, 1), 1/4), ((2, 2), 1/2)],
          two_body_int = []\<rparr>"
  by (simp add: get_integrals_FCIDUMP_def dump_files_def full_dump_def split_def is_space_def
      read_row_def bind_def item_def convert_def demo_float_def demo_int_def store_record_def
      no_integrals_def)

text \<open>
  C5: the tensors have dimension \<open>len(one_body_integrals)\<close>, the number of stored
  one-body keys. A dump of two orbitals (two orbital energies) with its four one-body
  integrals gives tensors of dimension 4, not 2.
\<close>

theorem tensor_dimension_failing_input:
  "map_sum id (\<lambda>st. length (spinor st))
       (get_integrals_FCIDUMP demo_float demo_int dump_files ''full'') = Inr 2
   \<and> map_sum id n_qubits
       (get_molecular_hamiltonian (1/100) demo_float demo_int dump_files ''full'' True) = Inr 4"
  by (simp add: get_molecular_hamiltonian_def full_dump_parsed bind_def hamiltonian_of_def
      split: prod.splits)

end
